theory Spec2Isabelle
  imports Complex_Main "HOL-Library.Word"
begin

section \<open>Common types\<close>

text \<open>
  The error codes of \<^verbatim>\<open>esp_err.h\<close> that the two modules return. Codes coming out
  of the bus and mount drivers that the code only passes through are \<open>ESP_ERR_CODE n\<close>.
\<close>

datatype esp_err_t =
    ESP_OK
  | ESP_FAIL
  | ESP_ERR_NO_MEM
  | ESP_ERR_INVALID_STATE
  | ESP_ERR_TIMEOUT
  | ESP_ERR_NOT_FOUND
  | ESP_ERR_INVALID_RESPONSE
  | ESP_ERR_CODE nat

type_synonym int32 = "32 word"

text \<open>
  The two translation units each own a \<^verbatim>\<open>static SemaphoreHandle_t sd_card_mutex\<close>.
  They are different objects: the one of \<^verbatim>\<open>sd_card_manager.c\<close> is created anew by
  every successful \<^verbatim>\<open>sd_card_init\<close> (the number tells the instances apart), the one
  of \<^verbatim>\<open>settings_config.c\<close> is created once by \<^verbatim>\<open>settings_load\<close>.
\<close>

datatype lock_id = Manager_mutex nat | Settings_mutex

datatype open_mode = Mode_r | Mode_w | Mode_a

text \<open>
  What an operation does to the outside world, in the order it does it. \<open>Take\<close> is a
  successful \<^verbatim>\<open>xSemaphoreTake\<close>, \<open>Take_timeout\<close> one that gave up.
\<close>

datatype event =
    Take lock_id
  | Take_timeout lock_id
  | Give lock_id
  | Mutex_create lock_id
  | Mutex_delete lock_id
  | Fopen string open_mode
  | Opendir string
  | Mkdir string
  | Remove string
  | Delay nat
  | Bus_initialize
  | Bus_free
  | Mount bool nat
  | Unmount

section \<open>C library functions used by the settings module\<close>

text \<open>
  \<^verbatim>\<open>strstr\<close>: the suffix of the haystack that starts at the first occurrence of the
  needle, or NULL.
\<close>

fun strstr :: "string \<Rightarrow> string \<Rightarrow> string option" where
  "strstr [] needle = (if needle = [] then Some [] else None)"
| "strstr (c # cs) needle =
     (if take (length needle) (c # cs) = needle then Some (c # cs) else strstr cs needle)"

text \<open>
  \<^verbatim>\<open>atoi\<close> is \<^verbatim>\<open>(int) strtol(s, NULL, 10)\<close>: leading white space is skipped, one
  optional sign is read, then decimal digits up to the first other character; no digits
  give 0. \<^verbatim>\<open>strtol\<close> saturates at the bounds of a 32-bit \<^verbatim>\<open>long\<close>.
\<close>

definition isspace :: "char \<Rightarrow> bool" where
  "isspace c = (of_char c \<in> {32, 9, 10, 11, 12, 13 :: nat})"

definition isdigit :: "char \<Rightarrow> bool" where
  "isdigit c = (48 \<le> (of_char c :: nat) \<and> (of_char c :: nat) \<le> 57)"

fun digits_value :: "nat \<Rightarrow> string \<Rightarrow> nat" where
  "digits_value acc [] = acc"
| "digits_value acc (c # cs) =
     (if isdigit c then digits_value (acc * 10 + (of_char c - 48)) cs else acc)"

definition LONG_MAX :: int where "LONG_MAX = 2147483647"
definition LONG_MIN :: int where "LONG_MIN = - 2147483648"

definition strtol :: "string \<Rightarrow> int" where
  "strtol s =
     (case dropWhile isspace s of
        [] \<Rightarrow> 0
      | c # cs \<Rightarrow>
          if c = CHR ''-'' then max LONG_MIN (- int (digits_value 0 cs))
          else if c = CHR ''+'' then min LONG_MAX (int (digits_value 0 cs))
          else min LONG_MAX (int (digits_value 0 (c # cs))))"

definition atoi :: "string \<Rightarrow> int32" where
  "atoi s = word_of_int (strtol s)"

text \<open>The conversion \<^verbatim>\<open>%d\<close> of \<^verbatim>\<open>snprintf\<close>: a minus sign for a negative value, then
  the decimal digits without leading zeros.\<close>

function dec_digits :: "nat \<Rightarrow> string" where
  "dec_digits n =
     (if n < 10 then [char_of (48 + n)]
      else dec_digits (n div 10) @ [char_of (48 + n mod 10)])"
  by pat_completeness auto
termination
  by (relation "measure (\<lambda>n. n)") auto

declare dec_digits.simps [simp del]

definition fmt_d :: "int \<Rightarrow> string" where
  "fmt_d i = (if i < 0 then CHR ''-'' # dec_digits (nat (- i)) else dec_digits (nat i))"

definition fmt_bool :: "bool \<Rightarrow> string" where
  "fmt_bool b = (if b then ''true'' else ''false'')"

text \<open>A C string ends at its first NUL byte.\<close>

definition c_string :: "string \<Rightarrow> string" where
  "c_string bytes = takeWhile (\<lambda>c. c \<noteq> CHR 0x00) bytes"

section \<open>Configuration persistence (\<^verbatim>\<open>main/ui/settings_config.c\<close>)\<close>

text \<open>
  Modelled from the spec: the declaration of \<^verbatim>\<open>touch_settings_t\<close> (in
  \<^verbatim>\<open>settings_config.h\<close>, which is not among the sources). The spec's SettingsRecord
  has a sensitivity, a demo-mode flag, a feature-screen flag and two fixed-size boolean
  arrays of per-arc visibility; the field names are the ones \<^verbatim>\<open>settings_config.c\<close>
  uses. The sensitivity is an \<^verbatim>\<open>int\<close>: it is printed with \<^verbatim>\<open>%d\<close> and assigned from
  \<^verbatim>\<open>atoi\<close>.
\<close>

record touch_settings_t =
  touch_sensitivity_level :: int32
  demo_mode_enabled :: bool
  screen3_enabled :: bool
  screen1_arcs_enabled :: "bool list"
  screen2_arcs_enabled :: "bool list"

text \<open>
  The macros of the same missing header. Their values are unknown, so every operation
  that uses one takes them as a parameter.
\<close>

record settings_consts =
  DEFAULT_TOUCH_SENSITIVITY :: int32
  MIN_TOUCH_SENSITIVITY :: int32
  MAX_TOUCH_SENSITIVITY :: int32
  DEFAULT_DEMO_MODE_ENABLED :: bool
  DEFAULT_SCREEN3_ENABLED :: bool
  SCREEN1_ARCS_COUNT :: nat
  SCREEN2_ARCS_COUNT :: nat

definition dquote :: "string \<Rightarrow> string" where
  "dquote s = CHR 0x22 # s @ [CHR 0x22]"

definition sens_key :: string where "sens_key = dquote ''sensitivity'' @ '':''"
definition demo_key :: string where "demo_key = dquote ''demo_mode'' @ '':''"
definition s3_key :: string where "s3_key = dquote ''screen3_enabled'' @ '':''"

text \<open>\<^verbatim>\<open>snprintf\<close> writes at most \<open>buffer_size - 1\<close> characters of the formatted text.\<close>

definition settings_to_json :: "touch_settings_t \<Rightarrow> nat \<Rightarrow> string" where
  "settings_to_json settings buffer_size =
     take (buffer_size - 1)
       (''{'' @ sens_key @ fmt_d (sint (touch_sensitivity_level settings))
        @ '','' @ demo_key @ fmt_bool (demo_mode_enabled settings)
        @ '','' @ s3_key @ fmt_bool (screen3_enabled settings) @ ''}'')"

text \<open>Returns the flag and the record behind the pointer, updated only when all three
  keys are found.\<close>

definition settings_from_json :: "string \<Rightarrow> touch_settings_t \<Rightarrow> bool \<times> touch_settings_t" where
  "settings_from_json json_str settings =
     (case (strstr json_str sens_key, strstr json_str demo_key, strstr json_str s3_key) of
        (Some sens_ptr, Some demo_ptr, Some s3_ptr) \<Rightarrow>
          (True, settings
             \<lparr> touch_sensitivity_level := atoi (drop (length sens_key) sens_ptr),
               demo_mode_enabled := (strstr demo_ptr ''true'' \<noteq> None),
               screen3_enabled := (strstr s3_ptr ''true'' \<noteq> None) \<rparr>)
      | _ \<Rightarrow> (False, settings))"

text \<open>The two loops of \<^verbatim>\<open>settings_init_defaults\<close> set the array elements one by one.\<close>

definition set_all_true :: "nat \<Rightarrow> bool list \<Rightarrow> bool list" where
  "set_all_true n arcs = fold (\<lambda>i xs. xs[i := True]) [0 ..< n] arcs"

definition settings_init_defaults :: "settings_consts \<Rightarrow> touch_settings_t \<Rightarrow> touch_settings_t" where
  "settings_init_defaults k settings =
     settings
       \<lparr> touch_sensitivity_level := DEFAULT_TOUCH_SENSITIVITY k,
         demo_mode_enabled := DEFAULT_DEMO_MODE_ENABLED k,
         screen3_enabled := DEFAULT_SCREEN3_ENABLED k,
         screen1_arcs_enabled := set_all_true (SCREEN1_ARCS_COUNT k) (screen1_arcs_enabled settings),
         screen2_arcs_enabled := set_all_true (SCREEN2_ARCS_COUNT k) (screen2_arcs_enabled settings) \<rparr>"

definition settings_validate :: "settings_consts \<Rightarrow> touch_settings_t \<Rightarrow> bool" where
  "settings_validate k settings =
     (if sint (touch_sensitivity_level settings) < sint (MIN_TOUCH_SENSITIVITY k)
         \<or> sint (touch_sensitivity_level settings) > sint (MAX_TOUCH_SENSITIVITY k)
      then False else True)"

text \<open>
  The module's statics and the part of the medium it touches: the current settings, its
  own mutex handle (NULL until \<^verbatim>\<open>settings_load\<close> creates it), and the files of the
  medium by path.
\<close>

record settings_state =
  current_settings :: touch_settings_t
  settings_sd_card_mutex :: bool
  sd_files :: "string \<rightharpoonup> string"

text \<open>
  What the environment answers during one operation: whether \<^verbatim>\<open>xSemaphoreCreateMutex\<close>
  returns a handle, whether \<^verbatim>\<open>xSemaphoreTake\<close> gets the mutex within its timeout,
  and whether the medium lets \<^verbatim>\<open>fopen\<close> succeed (for reading the file must exist as
  well). A file that was opened for writing receives the whole text.
\<close>

record settings_env =
  mutex_created :: bool
  lock_taken :: bool
  read_opens :: bool
  write_lock_taken :: bool
  write_opens :: bool

definition settings_path :: string where
  "settings_path = ''/sdcard/settings.cfg''"

text \<open>
  \<^verbatim>\<open>s_example_write_file\<close> (\<^verbatim>\<open>main/sd_card.c\<close>). It passes the data to \<^verbatim>\<open>fprintf\<close>
  as the format; the text written is the data itself as long as the data holds no
  \<^verbatim>\<open>%\<close>, which is the case for the output of \<open>settings_to_json\<close>.
\<close>

definition s_example_write_file ::
  "bool \<Rightarrow> string \<Rightarrow> string \<Rightarrow> settings_state \<Rightarrow> esp_err_t \<times> settings_state \<times> event list" where
  "s_example_write_file opens path data st =
     (if \<not> opens then (ESP_FAIL, st, [Fopen path Mode_w])
      else (ESP_OK, st \<lparr> sd_files := (sd_files st)(path \<mapsto> data) \<rparr>, [Fopen path Mode_w]))"

text \<open>
  \<^verbatim>\<open>settings_save\<close> returns nothing; the model returns what it logs: \<open>None\<close> when the
  operation is aborted before the write, otherwise the result of the write.
\<close>

definition settings_save ::
  "settings_env \<Rightarrow> touch_settings_t \<Rightarrow> settings_state
     \<Rightarrow> esp_err_t option \<times> settings_state \<times> event list" where
  "settings_save env settings_to_save st =
     (let json_buffer = settings_to_json settings_to_save 256 in
      if \<not> settings_sd_card_mutex st then (None, st, [])
      else if \<not> write_lock_taken env then (None, st, [Take_timeout Settings_mutex])
      else
        (case s_example_write_file (write_opens env) settings_path json_buffer st of
           (result, st', evs) \<Rightarrow> (Some result, st', [Take Settings_mutex] @ evs @ [Give Settings_mutex])))"

definition settings_load ::
  "settings_consts \<Rightarrow> settings_env \<Rightarrow> settings_state \<Rightarrow> esp_err_t \<times> settings_state \<times> event list" where
  "settings_load k env st =
     (if \<not> settings_sd_card_mutex st \<and> \<not> mutex_created env then
        (ESP_ERR_NO_MEM,
         st \<lparr> current_settings := settings_init_defaults k (current_settings st) \<rparr>, [])
      else
        let created = (if settings_sd_card_mutex st then [] else [Mutex_create Settings_mutex]);
            st1 = st \<lparr> settings_sd_card_mutex := True \<rparr>
        in
        if \<not> lock_taken env then
          (ESP_ERR_TIMEOUT,
           st1 \<lparr> current_settings := settings_init_defaults k (current_settings st1) \<rparr>,
           created @ [Take_timeout Settings_mutex])
        else
          (case (if read_opens env then sd_files st1 settings_path else None) of
             Some content \<Rightarrow>
               (let buffer = c_string (take 255 content);
                    evs = created @ [Take Settings_mutex, Fopen settings_path Mode_r, Give Settings_mutex]
                in case settings_from_json buffer (current_settings st1) of
                     (True, parsed) \<Rightarrow> (ESP_OK, st1 \<lparr> current_settings := parsed \<rparr>, evs)
                   | (False, _) \<Rightarrow>
                       (ESP_FAIL,
                        st1 \<lparr> current_settings := settings_init_defaults k (current_settings st1) \<rparr>,
                        evs))
           | None \<Rightarrow>
               (let st2 = st1 \<lparr> current_settings := settings_init_defaults k (current_settings st1) \<rparr>
                in case settings_save env (current_settings st2) st2 of
                     (_, st3, save_evs) \<Rightarrow>
                       (ESP_ERR_NOT_FOUND, st3,
                        created @ [Take Settings_mutex, Fopen settings_path Mode_r, Give Settings_mutex]
                          @ save_evs))))"

subsection \<open>Scenarios and auxiliary definitions\<close>

text \<open>The constant parts of the serialized text, before and after the number.\<close>

definition json_head :: string where
  "json_head = ''{'' @ sens_key"

definition json_tail :: "bool \<Rightarrow> bool \<Rightarrow> string" where
  "json_tail d s3 = '','' @ demo_key @ fmt_bool d @ '','' @ s3_key @ fmt_bool s3 @ ''}''"

subsection \<open>Concrete inputs\<close>

text \<open>
  Values of the header's macros for the examples, a record with one arc hidden, a record
  with demo mode off and the feature screen on, the settings as installed at start-up, and
  environments: a working medium and one that cannot be written.
\<close>

definition ex_consts :: settings_consts where
  "ex_consts = \<lparr> DEFAULT_TOUCH_SENSITIVITY = 5, MIN_TOUCH_SENSITIVITY = 1,
      MAX_TOUCH_SENSITIVITY = 10, DEFAULT_DEMO_MODE_ENABLED = True,
      DEFAULT_SCREEN3_ENABLED = True, SCREEN1_ARCS_COUNT = 2, SCREEN2_ARCS_COUNT = 1 \<rparr>"

definition ex_record :: touch_settings_t where
  "ex_record = \<lparr> touch_sensitivity_level = 7, demo_mode_enabled = True, screen3_enabled = True,
      screen1_arcs_enabled = [False, True], screen2_arcs_enabled = [True] \<rparr>"

definition ex_record_demo_off :: touch_settings_t where
  "ex_record_demo_off = \<lparr> touch_sensitivity_level = 5, demo_mode_enabled = False,
      screen3_enabled = True, screen1_arcs_enabled = [True, True], screen2_arcs_enabled = [True] \<rparr>"

definition ex_boot_settings :: touch_settings_t where
  "ex_boot_settings = \<lparr> touch_sensitivity_level = 5, demo_mode_enabled = True,
      screen3_enabled = True, screen1_arcs_enabled = [True, True], screen2_arcs_enabled = [True] \<rparr>"

definition ex_settings_state :: settings_state where
  "ex_settings_state = \<lparr> current_settings = ex_boot_settings, settings_sd_card_mutex = True,
      sd_files = Map.empty \<rparr>"

definition env_all_ok :: settings_env where
  "env_all_ok = \<lparr> mutex_created = True, lock_taken = True, read_opens = True,
      write_lock_taken = True, write_opens = True \<rparr>"

definition ex_out_of_range_file :: string where
  "ex_out_of_range_file =
     ''{'' @ sens_key @ ''9999,'' @ demo_key @ ''true,'' @ s3_key @ ''true}''"

definition ex_state_with_file :: settings_state where
  "ex_state_with_file = ex_settings_state \<lparr> sd_files := [settings_path \<mapsto> ex_out_of_range_file] \<rparr>"

text \<open>The default sensitivity lies within the declared range.\<close>

definition defaults_in_range :: "settings_consts \<Rightarrow> bool" where
  "defaults_in_range k =
     (sint (MIN_TOUCH_SENSITIVITY k) \<le> sint (DEFAULT_TOUCH_SENSITIVITY k)
      \<and> sint (DEFAULT_TOUCH_SENSITIVITY k) \<le> sint (MAX_TOUCH_SENSITIVITY k))"

text \<open>A save followed by a load, and two loads in a row: the results and the current
  settings (and the settings file) after each step.\<close>

definition save_then_load ::
  "settings_consts \<Rightarrow> settings_env \<Rightarrow> settings_env \<Rightarrow> touch_settings_t \<Rightarrow> settings_state
     \<Rightarrow> esp_err_t option \<times> esp_err_t \<times> touch_settings_t" where
  "save_then_load k env env2 r st =
     (case settings_save env r st of
        (saved, st1, _) \<Rightarrow>
          (case settings_load k env2 st1 of
             (res, st2, _) \<Rightarrow> (saved, res, current_settings st2)))"

definition env_write_protected :: settings_env where
  "env_write_protected = \<lparr> mutex_created = True, lock_taken = True, read_opens = True,
      write_lock_taken = True, write_opens = False \<rparr>"

definition load_then_load ::
  "settings_consts \<Rightarrow> settings_env \<Rightarrow> settings_env \<Rightarrow> settings_state
     \<Rightarrow> esp_err_t \<times> touch_settings_t \<times> string option \<times> esp_err_t \<times> touch_settings_t" where
  "load_then_load k env env2 st =
     (case settings_load k env st of
        (res1, st1, _) \<Rightarrow>
          (case settings_load k env2 st1 of
             (res2, st2, _) \<Rightarrow>
               (res1, current_settings st1, sd_files st1 settings_path, res2, current_settings st2)))"

definition ex_boot_state :: settings_state where
  "ex_boot_state = \<lparr> current_settings = ex_boot_settings, settings_sd_card_mutex = False,
      sd_files = Map.empty \<rparr>"

section \<open>Medium lifecycle manager (\<^verbatim>\<open>components/sd_card_manager/sd_card_manager.c\<close>)\<close>

text \<open>
  Of \<^verbatim>\<open>sdmmc_card_t\<close> (a type of the SD driver) the code reads two \<^verbatim>\<open>int\<close> fields,
  \<^verbatim>\<open>csd.capacity\<close> and \<^verbatim>\<open>csd.sector_size\<close>.
\<close>

record sdmmc_card_t =
  csd_capacity :: int32
  csd_sector_size :: int32

text \<open>
  The statics of the module: the mounted flag, the card handle, the mutex handle and the
  clock rate in \<^verbatim>\<open>s_host\<close>. \<open>mutex_count\<close> numbers the mutexes created so far, so
  that a new one differs from every earlier one.
\<close>

record sd_state =
  sd_card_initialized :: bool
  s_card :: "sdmmc_card_t option"
  sd_card_mutex :: "nat option"
  s_host_max_freq_khz :: nat
  mutex_count :: nat

definition sd_initial :: sd_state where
  "sd_initial = \<lparr> sd_card_initialized = False, s_card = None, sd_card_mutex = None,
      s_host_max_freq_khz = 20000, mutex_count = 0 \<rparr>"

definition MOUNT_POINT :: string where
  "MOUNT_POINT = ''/sdcard''"

subsection \<open>Teardown\<close>

definition sd_card_deinit :: "sd_state \<Rightarrow> esp_err_t \<times> sd_state \<times> event list" where
  "sd_card_deinit st =
     (ESP_OK,
      st \<lparr> sd_card_initialized := False, s_card := None, sd_card_mutex := None \<rparr>,
      (case s_card st of Some _ \<Rightarrow> [Unmount] | None \<Rightarrow> [])
        @ (case sd_card_mutex st of Some m \<Rightarrow> [Mutex_delete (Manager_mutex m)] | None \<Rightarrow> []))"

definition sd_card_full_deinit :: "sd_state \<Rightarrow> esp_err_t \<times> sd_state \<times> event list" where
  "sd_card_full_deinit st =
     (case sd_card_deinit st of (_, st', evs) \<Rightarrow> (ESP_OK, st', evs @ [Bus_free]))"

subsection \<open>Initialization with retries\<close>

text \<open>
  What the drivers answer in one attempt: the result of \<^verbatim>\<open>spi_bus_initialize\<close>, the
  result of \<^verbatim>\<open>esp_vfs_fat_sdspi_mount\<close> with the card it hands out on success (on
  failure it leaves \<^verbatim>\<open>s_card\<close> alone), and whether \<^verbatim>\<open>xSemaphoreCreateMutex\<close> returns
  a handle.
\<close>

record attempt_env =
  bus_result :: esp_err_t
  mount_result :: esp_err_t
  mounted_card :: sdmmc_card_t
  mutex_ok :: bool

definition max_retries :: nat where
  "max_retries = 3"

text \<open>
  The body of the \<^verbatim>\<open>for\<close> loop. The flag tells whether the function returns from
  inside the body (then with \<open>ESP_OK\<close>); otherwise the loop goes on with the value of
  \<^verbatim>\<open>ret\<close> given. \<open>Mount f k\<close> records \<^verbatim>\<open>format_if_mount_failed\<close> and the clock.
\<close>

definition init_attempt ::
  "attempt_env \<Rightarrow> nat \<Rightarrow> sd_state \<Rightarrow> (bool \<times> esp_err_t) \<times> sd_state \<times> event list" where
  "init_attempt a attempt st =
     (if bus_result a \<noteq> ESP_OK \<and> bus_result a \<noteq> ESP_ERR_INVALID_STATE then
        (case sd_card_full_deinit st of
           (_, st1, ev1) \<Rightarrow>
             ((False, bus_result a), st1, [Delay (300 * attempt), Bus_initialize] @ ev1))
      else
        (let freq = (if attempt = 1 then 8000 else 4000);
             st1 = st \<lparr> s_host_max_freq_khz := freq \<rparr>;
             evs = [Delay (300 * attempt), Bus_initialize, Mount (attempt > 1) freq]
         in
         if mount_result a = ESP_OK then
           (if mutex_ok a then
              ((True, ESP_OK),
               st1 \<lparr> s_card := Some (mounted_card a),
                     sd_card_mutex := Some (mutex_count st1),
                     mutex_count := Suc (mutex_count st1),
                     sd_card_initialized := True \<rparr>,
               evs @ [Mutex_create (Manager_mutex (mutex_count st1))])
            else
              (case sd_card_full_deinit
                      (st1 \<lparr> s_card := Some (mounted_card a), sd_card_mutex := None \<rparr>) of
                 (_, st2, ev2) \<Rightarrow> ((False, mount_result a), st2, evs @ ev2)))
         else
           (case sd_card_full_deinit st1 of
              (_, st2, ev2) \<Rightarrow> ((False, mount_result a), st2, evs @ ev2))))"

fun init_attempts ::
  "(nat \<Rightarrow> attempt_env) \<Rightarrow> nat list \<Rightarrow> esp_err_t \<Rightarrow> sd_state
     \<Rightarrow> esp_err_t \<times> sd_state \<times> event list" where
  "init_attempts env [] ret st = (ret, st, [])"
| "init_attempts env (attempt # rest) ret st =
     (case init_attempt (env attempt) attempt st of
        ((True, r), st1, ev1) \<Rightarrow> (r, st1, ev1)
      | ((False, r), st1, ev1) \<Rightarrow>
          (case init_attempts env rest r st1 of
             (r', st2, ev2) \<Rightarrow> (r', st2, ev1 @ ev2)))"

definition sd_card_init ::
  "(nat \<Rightarrow> attempt_env) \<Rightarrow> sd_state \<Rightarrow> esp_err_t \<times> sd_state \<times> event list" where
  "sd_card_init env st =
     (case (if sd_card_initialized st
            then (case sd_card_full_deinit st of (_, st0, ev0) \<Rightarrow> (st0, ev0 @ [Delay 200]))
            else (st, [])) of
        (st0, ev0) \<Rightarrow>
          (case init_attempts env [1 ..< Suc max_retries] ESP_FAIL st0 of
             (ret, st1, ev1) \<Rightarrow> (ret, st1, ev0 @ ev1)))"

subsection \<open>Liveness probe\<close>

text \<open>The argument tells whether \<^verbatim>\<open>opendir\<close> of the mount point succeeds.\<close>

definition sd_card_is_initialized :: "bool \<Rightarrow> sd_state \<Rightarrow> bool \<times> sd_state \<times> event list" where
  "sd_card_is_initialized root_opens st =
     (if \<not> sd_card_initialized st \<or> s_card st = None \<or> sd_card_mutex st = None then
        (False, st, [])
      else if \<not> root_opens then
        (False, st \<lparr> sd_card_initialized := False \<rparr>, [Opendir MOUNT_POINT])
      else (True, st, [Opendir MOUNT_POINT]))"

subsection \<open>Guarded file access\<close>

text \<open>
  A call either returns a code or does not return: \<^verbatim>\<open>xSemaphoreTake\<close> and
  \<^verbatim>\<open>xSemaphoreGive\<close> assert that the handle is not NULL.
\<close>

datatype call_result = Return esp_err_t | Abort

text \<open>\<^verbatim>\<open>strrchr\<close>: the index of the last occurrence of the character.\<close>

fun strrchr :: "string \<Rightarrow> char \<Rightarrow> nat option" where
  "strrchr [] c = None"
| "strrchr (x # xs) c =
     (case strrchr xs c of
        Some i \<Rightarrow> Some (Suc i)
      | None \<Rightarrow> if x = c then Some 0 else None)"

record dir_env =
  strdup_ok :: bool
  dir_opens :: bool
  mkdir_ok :: bool

definition ensure_dir_exists :: "string \<Rightarrow> dir_env \<Rightarrow> esp_err_t \<times> event list" where
  "ensure_dir_exists path env =
     (if \<not> strdup_ok env then (ESP_ERR_NO_MEM, [])
      else
        (case strrchr path CHR ''/'' of
           None \<Rightarrow> (ESP_OK, [])
         | Some last_slash \<Rightarrow>
             if last_slash = 0 then (ESP_OK, [])
             else
               (let dir_path = take last_slash path in
                if dir_opens env then (ESP_OK, [Opendir dir_path])
                else if \<not> mkdir_ok env then (ESP_FAIL, [Opendir dir_path, Mkdir dir_path])
                else (ESP_OK, [Opendir dir_path, Mkdir dir_path]))))"

text \<open>
  The environment of one \<^verbatim>\<open>sd_card_write_file\<close>: the first take of the mutex, the
  directory check, \<^verbatim>\<open>opendir\<close> of the mount point, the two trial files, and for every
  round of the open loop the open of the file itself, the liveness probe, the drivers'
  answers to a reinitialization and the second take of the mutex.
\<close>

record write_env =
  w_take_ok :: bool
  w_dir :: dir_env
  w_root_opens :: bool
  w_test_opens :: bool
  w_temp_opens :: bool
  w_open :: "nat \<Rightarrow> bool"
  w_alive :: "nat \<Rightarrow> bool"
  w_reinit :: "nat \<Rightarrow> nat \<Rightarrow> attempt_env"
  w_retake_ok :: "nat \<Rightarrow> bool"

text \<open>The two trial files written before the file itself.\<close>

definition write_trial_files :: "write_env \<Rightarrow> event list" where
  "write_trial_files env =
     (if w_test_opens env
      then [Fopen ''/sdcard/test.txt'' Mode_w, Fopen ''/sdcard/test.txt'' Mode_r,
            Remove ''/sdcard/test.txt'']
      else [Fopen ''/sdcard/test.txt'' Mode_w])
     @ (if w_temp_opens env
        then [Fopen ''/sdcard/write_test.tmp'' Mode_w, Fopen ''/sdcard/write_test.tmp'' Mode_r,
              Remove ''/sdcard/write_test.tmp'']
        else [Fopen ''/sdcard/write_test.tmp'' Mode_w])"

text \<open>
  The part of a round of the open loop that comes before \<^verbatim>\<open>fopen\<close>. \<open>Some r\<close> means
  that the function leaves with \<open>r\<close>; \<open>None\<close> that the round goes on to \<^verbatim>\<open>fopen\<close>.
\<close>

definition write_retry_check ::
  "write_env \<Rightarrow> nat \<Rightarrow> sd_state \<Rightarrow> call_result option \<times> sd_state \<times> event list" where
  "write_retry_check env retry st =
     (if retry > 0 then
        (case sd_card_is_initialized (w_alive env retry) st of
           (True, st1, ev1) \<Rightarrow> (None, st1, [Delay (100 + retry * 100)] @ ev1)
         | (False, st1, ev1) \<Rightarrow>
             (case sd_card_mutex st1 of
                None \<Rightarrow> (Some Abort, st1, [Delay (100 + retry * 100)] @ ev1)
              | Some m \<Rightarrow>
                  (case sd_card_init (w_reinit env retry) st1 of
                     (reinit_result, st2, ev2) \<Rightarrow>
                       (let evs = [Delay (100 + retry * 100)] @ ev1
                                    @ [Give (Manager_mutex m)] @ ev2
                        in
                        if reinit_result \<noteq> ESP_OK then
                          (Some (Return ESP_ERR_INVALID_STATE), st2, evs)
                        else
                          (case sd_card_mutex st2 of
                             None \<Rightarrow> (Some Abort, st2, evs)
                           | Some m' \<Rightarrow>
                               if \<not> w_retake_ok env retry then
                                 (Some (Return ESP_ERR_TIMEOUT), st2,
                                  evs @ [Take_timeout (Manager_mutex m')])
                               else (None, st2, evs @ [Take (Manager_mutex m')]))))))
      else (None, st, []))"

text \<open>
  The open loop, over the rounds still to run. It ends with a result to return, or with
  the file opened (\<open>True\<close>) or not (\<open>False\<close>).
\<close>

datatype loop_result = Loop_return call_result | Loop_done bool

fun write_open_retries ::
  "write_env \<Rightarrow> string \<Rightarrow> nat list \<Rightarrow> sd_state \<Rightarrow> loop_result \<times> sd_state \<times> event list" where
  "write_open_retries env path [] st = (Loop_done False, st, [])"
| "write_open_retries env path (retry # rest) st =
     (case write_retry_check env retry st of
        (Some r, st1, ev1) \<Rightarrow> (Loop_return r, st1, ev1)
      | (None, st1, ev1) \<Rightarrow>
          if w_open env retry then (Loop_done True, st1, ev1 @ [Fopen path Mode_w])
          else
            (case write_open_retries env path rest st1 of
               (r, st2, ev2) \<Rightarrow> (r, st2, ev1 @ [Fopen path Mode_w] @ ev2)))"

definition sd_card_write_file ::
  "string \<Rightarrow> string \<Rightarrow> write_env \<Rightarrow> sd_state \<Rightarrow> call_result \<times> sd_state \<times> event list" where
  "sd_card_write_file path data env st =
     (if \<not> sd_card_initialized st \<or> s_card st = None then (Return ESP_ERR_INVALID_STATE, st, [])
      else
        (case sd_card_mutex st of
           None \<Rightarrow> (Return ESP_ERR_INVALID_STATE, st, [])
         | Some m \<Rightarrow>
             if \<not> w_take_ok env then (Return ESP_ERR_TIMEOUT, st, [Take_timeout (Manager_mutex m)])
             else
               (case ensure_dir_exists path (w_dir env) of
                  (dir_result, dir_evs) \<Rightarrow>
                    if dir_result \<noteq> ESP_OK then
                      (Return ESP_FAIL, st,
                       [Take (Manager_mutex m)] @ dir_evs @ [Give (Manager_mutex m)])
                    else if \<not> w_root_opens env then
                      (Return ESP_FAIL, st,
                       [Take (Manager_mutex m)] @ dir_evs
                         @ [Opendir ''/sdcard'', Give (Manager_mutex m)])
                    else
                      (let before = [Take (Manager_mutex m)] @ dir_evs @ [Opendir ''/sdcard'']
                                      @ write_trial_files env
                       in
                       case write_open_retries env path [0 ..< 3] st of
                         (Loop_return r, st1, evs) \<Rightarrow> (r, st1, before @ evs)
                       | (Loop_done opened, st1, evs) \<Rightarrow>
                           (case sd_card_mutex st1 of
                              None \<Rightarrow> (Abort, st1, before @ evs)
                            | Some m' \<Rightarrow>
                                (Return (if opened then ESP_OK else ESP_FAIL), st1,
                                 before @ evs @ [Give (Manager_mutex m')]))))))"

record append_env =
  a_take_ok :: bool
  a_dir :: dir_env
  a_opens :: bool

definition sd_card_append_file ::
  "string \<Rightarrow> string \<Rightarrow> append_env \<Rightarrow> sd_state \<Rightarrow> call_result \<times> sd_state \<times> event list" where
  "sd_card_append_file path data env st =
     (case sd_card_mutex st of
        None \<Rightarrow> (Abort, st, [])
      | Some m \<Rightarrow>
          if \<not> a_take_ok env then (Return ESP_ERR_TIMEOUT, st, [Take_timeout (Manager_mutex m)])
          else
            (case ensure_dir_exists path (a_dir env) of
               (dir_result, dir_evs) \<Rightarrow>
                 if dir_result \<noteq> ESP_OK then
                   (Return ESP_FAIL, st,
                    [Take (Manager_mutex m)] @ dir_evs @ [Give (Manager_mutex m)])
                 else if \<not> a_opens env then
                   (Return ESP_FAIL, st,
                    [Take (Manager_mutex m)] @ dir_evs
                      @ [Fopen path Mode_a, Give (Manager_mutex m)])
                 else
                   (Return ESP_OK, st,
                    [Take (Manager_mutex m)] @ dir_evs
                      @ [Fopen path Mode_a, Give (Manager_mutex m)])))"

subsection \<open>Capacity and free-space estimate\<close>

text \<open>
  What the medium answers to one write and read-back trial: whether the file opens for
  writing, how many bytes \<^verbatim>\<open>fwrite\<close> reports, whether the file opens for reading, how
  many bytes \<^verbatim>\<open>fread\<close> reports, and the read buffer as \<^verbatim>\<open>strncmp\<close> then sees it.
\<close>

record probe_env =
  open_w :: bool
  written :: nat
  open_r :: bool
  read_bytes :: nat
  read_buffer :: string

definition test_files :: "string list" where
  "test_files = [''/sdcard/test_write.tmp'', ''/sdcard/.test_free'', ''/sdcard/tmp.dat'']"

text \<open>The condition under which a trial sets \<^verbatim>\<open>write_test_passed\<close>.\<close>

definition probe_passes :: "probe_env \<Rightarrow> bool" where
  "probe_passes p =
     (open_w p \<and> written p = length ''test'' \<and> open_r p
      \<and> read_bytes p > 0 \<and> take (length ''test'') (read_buffer p) = ''test'')"

definition probe_once :: "probe_env \<Rightarrow> nat \<Rightarrow> nat \<Rightarrow> bool \<times> event list" where
  "probe_once p file_idx retry =
     (let name = test_files ! file_idx;
          wait = (if retry > 0 then [Delay (50 + retry * 50)] else [])
      in
      if \<not> open_w p then (False, wait @ [Fopen name Mode_w])
      else if written p = length ''test'' then
        (if open_r p then
           (read_bytes p > 0 \<and> take (length ''test'') (read_buffer p) = ''test'',
            wait @ [Fopen name Mode_w, Fopen name Mode_r, Remove name])
         else (False, wait @ [Fopen name Mode_w, Fopen name Mode_r, Remove name]))
      else (False, wait @ [Fopen name Mode_w, Remove name]))"

text \<open>The inner loop over the retries and the outer loop over the candidate files; both
  stop as soon as a trial has passed.\<close>

fun probe_retries ::
  "(nat \<Rightarrow> nat \<Rightarrow> probe_env) \<Rightarrow> nat \<Rightarrow> nat list \<Rightarrow> bool \<Rightarrow> bool \<times> event list" where
  "probe_retries env file_idx [] passed = (passed, [])"
| "probe_retries env file_idx (retry # rest) passed =
     (if passed then (passed, [])
      else
        (case probe_once (env file_idx retry) file_idx retry of
           (p, ev) \<Rightarrow>
             (case probe_retries env file_idx rest p of
                (p', ev') \<Rightarrow> (p', ev @ ev'))))"

fun probe_files ::
  "(nat \<Rightarrow> nat \<Rightarrow> probe_env) \<Rightarrow> nat list \<Rightarrow> bool \<Rightarrow> bool \<times> event list" where
  "probe_files env [] passed = (passed, [])"
| "probe_files env (file_idx # rest) passed =
     (if passed then (passed, [])
      else
        (case probe_retries env file_idx [0 ..< 3] passed of
           (p, ev) \<Rightarrow>
             (case probe_files env rest p of
                (p', ev') \<Rightarrow> (p', ev @ ev'))))"

type_synonym uint64_t = "64 word"

text \<open>\<^verbatim>\<open>((uint64_t)s_card->csd.capacity) * s_card->csd.sector_size\<close>: both \<^verbatim>\<open>int\<close>
  operands are converted to 64 bits, the product wraps.\<close>

definition card_bytes :: "sdmmc_card_t \<Rightarrow> uint64_t" where
  "card_bytes c = scast (csd_capacity c) * scast (csd_sector_size c)"

text \<open>
  A pointer argument is \<open>None\<close> for NULL, otherwise the value its target holds; the
  function returns the targets' values at the end in the same way.
\<close>

definition sd_card_get_info ::
  "uint64_t option \<Rightarrow> uint64_t option \<Rightarrow> bool \<Rightarrow> (nat \<Rightarrow> nat \<Rightarrow> probe_env) \<Rightarrow> sd_state
     \<Rightarrow> esp_err_t \<times> uint64_t option \<times> uint64_t option \<times> sd_state \<times> event list" where
  "sd_card_get_info total_bytes free_bytes root_opens env st =
     (case sd_card_is_initialized root_opens st of
        (False, st1, ev1) \<Rightarrow> (ESP_ERR_INVALID_STATE, total_bytes, free_bytes, st1, ev1)
      | (True, st1, ev1) \<Rightarrow>
          (let total1 = (case (s_card st1, total_bytes) of
                           (Some c, Some _) \<Rightarrow> Some (card_bytes c)
                         | _ \<Rightarrow> total_bytes)
           in
           case free_bytes of
             None \<Rightarrow> (ESP_OK, total1, None, st1, ev1)
           | Some _ \<Rightarrow>
               (case probe_files env [0 ..< length test_files] False of
                  (write_test_passed, ev2) \<Rightarrow>
                    (ESP_OK, total1,
                     Some (if write_test_passed then
                             (case total1 of
                                Some t \<Rightarrow>
                                  if t > 0 then (t * 85) div 100
                                  else (case s_card st1 of
                                          Some c \<Rightarrow> (card_bytes c * 85) div 100
                                        | None \<Rightarrow> 1024 * 1024)
                              | None \<Rightarrow>
                                  (case s_card st1 of
                                     Some c \<Rightarrow> (card_bytes c * 85) div 100
                                   | None \<Rightarrow> 1024 * 1024))
                           else 0),
                     st1, ev1 @ ev2))))"

subsection \<open>Stability test\<close>

text \<open>
  \<^verbatim>\<open>float\<close> arithmetic: a result is the exact value rounded to the nearest number with a
  24-bit significand, ties to the even one. The values here lie between 0 and 100, far
  from overflow and from the subnormal range.
\<close>

fun f32_exponent :: "nat \<Rightarrow> rat \<Rightarrow> int \<Rightarrow> int" where
  "f32_exponent 0 x e = e"
| "f32_exponent (Suc n) x e =
     (if 2 \<le> x then f32_exponent n (x / 2) (e + 1)
      else if x < 1 then f32_exponent n (x * 2) (e - 1)
      else e)"

definition pow2 :: "int \<Rightarrow> rat" where
  "pow2 e = (if 0 \<le> e then 2 ^ nat e else 1 / 2 ^ nat (- e))"

definition round_half_even :: "rat \<Rightarrow> int" where
  "round_half_even q =
     (let f = \<lfloor>q\<rfloor>; d = q - of_int f
      in if d < 1 / 2 then f else if 1 / 2 < d then f + 1 else if even f then f else f + 1)"

definition f32_round :: "rat \<Rightarrow> rat" where
  "f32_round x =
     (if x \<le> 0 then 0
      else (let ulp = pow2 (f32_exponent 200 x 0 - 23)
            in of_int (round_half_even (x / ulp)) * ulp))"

text \<open>\<^verbatim>\<open>(float)successful_operations / test_iterations * 100.0f\<close>\<close>

definition success_rate :: "nat \<Rightarrow> nat \<Rightarrow> rat" where
  "success_rate successful_operations test_iterations =
     f32_round (f32_round (of_nat successful_operations / of_nat test_iterations) * 100)"

definition stab_test_data :: string where
  "stab_test_data = ''stability_test_data''"

definition stab_filename :: "nat \<Rightarrow> string" where
  "stab_filename i = take 31 (''/sdcard/stab_test_'' @ fmt_d (int i) @ ''.tmp'')"

text \<open>One iteration: whether it counts as successful, and what it does.\<close>

definition stab_iteration :: "probe_env \<Rightarrow> nat \<Rightarrow> bool \<times> event list" where
  "stab_iteration p i =
     (let name = stab_filename i in
      if \<not> open_w p then (False, [Fopen name Mode_w, Delay 50])
      else if written p = length stab_test_data then
        (if open_r p then
           (read_bytes p = length stab_test_data
              \<and> take (length stab_test_data) (read_buffer p) = stab_test_data,
            [Fopen name Mode_w, Fopen name Mode_r, Remove name, Delay 50])
         else (False, [Fopen name Mode_w, Fopen name Mode_r, Remove name, Delay 50]))
      else (False, [Fopen name Mode_w, Remove name, Delay 50]))"

fun stab_loop :: "(nat \<Rightarrow> probe_env) \<Rightarrow> nat list \<Rightarrow> nat \<Rightarrow> nat \<times> event list" where
  "stab_loop env [] successful_operations = (successful_operations, [])"
| "stab_loop env (i # rest) successful_operations =
     (case stab_iteration (env i) i of
        (ok, ev) \<Rightarrow>
          (case stab_loop env rest (if ok then Suc successful_operations else successful_operations) of
             (n, ev') \<Rightarrow> (n, ev @ ev')))"

definition test_iterations :: nat where
  "test_iterations = 10"

definition sd_card_stability_test ::
  "(nat \<Rightarrow> probe_env) \<Rightarrow> sd_state \<Rightarrow> esp_err_t \<times> sd_state \<times> event list" where
  "sd_card_stability_test env st =
     (if \<not> sd_card_initialized st \<or> s_card st = None then (ESP_ERR_INVALID_STATE, st, [])
      else
        (case stab_loop env [0 ..< test_iterations] 0 of
           (successful_operations, evs) \<Rightarrow>
             (if 80 \<le> success_rate successful_operations test_iterations then ESP_OK
              else if 50 \<le> success_rate successful_operations test_iterations
              then ESP_ERR_INVALID_RESPONSE
              else ESP_FAIL,
              st, evs)))"

text \<open>The names the header gives to the three results.\<close>

datatype stability_result = Stable | UsableDegraded | Unusable

definition stability_of :: "esp_err_t \<Rightarrow> stability_result option" where
  "stability_of r =
     (if r = ESP_OK then Some Stable
      else if r = ESP_ERR_INVALID_RESPONSE then Some UsableDegraded
      else if r = ESP_FAIL then Some Unusable
      else None)"

section \<open>Properties of event sequences\<close>

definition is_lock_event :: "event \<Rightarrow> bool" where
  "is_lock_event e = (case e of Take _ \<Rightarrow> True | Give _ \<Rightarrow> True | _ \<Rightarrow> False)"

definition is_file_op :: "event \<Rightarrow> bool" where
  "is_file_op e =
     (case e of Fopen _ _ \<Rightarrow> True | Opendir _ \<Rightarrow> True | Mkdir _ \<Rightarrow> True | Remove _ \<Rightarrow> True
      | _ \<Rightarrow> False)"

text \<open>
  The caller's hold on a lock along a sequence of events, starting from \<open>held\<close>: a take
  needs that nothing is held, a give needs that this very lock is held. \<open>None\<close> when a
  take or give breaks that, otherwise the lock held at the end.
\<close>

fun lock_discipline :: "lock_id option \<Rightarrow> event list \<Rightarrow> lock_id option option" where
  "lock_discipline held [] = Some held"
| "lock_discipline held (e # es) =
     (case e of
        Take l \<Rightarrow> if held = None then lock_discipline (Some l) es else None
      | Give l \<Rightarrow> if held = Some l then lock_discipline None es else None
      | _ \<Rightarrow> lock_discipline held es)"

text \<open>The lock held after a sequence of events, and the file operations of the sequence
  that happen while no lock is held.\<close>

fun held_after :: "lock_id option \<Rightarrow> event list \<Rightarrow> lock_id option" where
  "held_after held [] = held"
| "held_after held (e # es) =
     (case e of
        Take l \<Rightarrow> held_after (Some l) es
      | Give l \<Rightarrow> held_after None es
      | _ \<Rightarrow> held_after held es)"

fun unguarded_ops :: "lock_id option \<Rightarrow> event list \<Rightarrow> event list" where
  "unguarded_ops held [] = []"
| "unguarded_ops held (e # es) =
     (case e of
        Take l \<Rightarrow> unguarded_ops (Some l) es
      | Give l \<Rightarrow> unguarded_ops None es
      | _ \<Rightarrow> (if is_file_op e \<and> held = None then [e] else []) @ unguarded_ops held es)"

definition is_manager_mutex :: "lock_id \<Rightarrow> bool" where
  "is_manager_mutex l = (case l of Manager_mutex _ \<Rightarrow> True | Settings_mutex \<Rightarrow> False)"

section \<open>States the manager can be in\<close>

text \<open>
  The states reached from the start state by calls of the module's operations, each with
  any answers of the environment. A call that does not return leads nowhere.
\<close>

inductive reachable :: "sd_state \<Rightarrow> bool" where
  by_start: "reachable sd_initial"
| by_init: "reachable st \<Longrightarrow> sd_card_init env st = (r, st', evs) \<Longrightarrow> reachable st'"
| by_deinit: "reachable st \<Longrightarrow> sd_card_deinit st = (r, st', evs) \<Longrightarrow> reachable st'"
| by_full_deinit: "reachable st \<Longrightarrow> sd_card_full_deinit st = (r, st', evs) \<Longrightarrow> reachable st'"
| by_probe: "reachable st \<Longrightarrow> sd_card_is_initialized b st = (alive, st', evs) \<Longrightarrow> reachable st'"
| by_info:
    "reachable st \<Longrightarrow> sd_card_get_info tb fb b penv st = (r, tb', fb', st', evs)
       \<Longrightarrow> reachable st'"
| by_stability: "reachable st \<Longrightarrow> sd_card_stability_test senv st = (r, st', evs) \<Longrightarrow> reachable st'"
| by_write:
    "reachable st \<Longrightarrow> sd_card_write_file path data wenv st = (Return r, st', evs)
       \<Longrightarrow> reachable st'"
| by_append:
    "reachable st \<Longrightarrow> sd_card_append_file path data aenv st = (Return r, st', evs)
       \<Longrightarrow> reachable st'"

subsection \<open>Concrete inputs\<close>

text \<open>A 4 GB card, the state after a first successful initialization, and that state
  after a liveness probe that could not open the mount point.\<close>

definition ex_card :: sdmmc_card_t where
  "ex_card = \<lparr> csd_capacity = 7744512, csd_sector_size = 512 \<rparr>"

definition ex_mounted :: sd_state where
  "ex_mounted = \<lparr> sd_card_initialized = True, s_card = Some ex_card, sd_card_mutex = Some 0,
      s_host_max_freq_khz = 8000, mutex_count = 1 \<rparr>"

definition ex_demoted :: sd_state where
  "ex_demoted = ex_mounted \<lparr> sd_card_initialized := False \<rparr>"

text \<open>Drivers that work, and drivers that work while no mutex can be created.\<close>

definition attempt_ok :: attempt_env where
  "attempt_ok = \<lparr> bus_result = ESP_OK, mount_result = ESP_OK, mounted_card = ex_card,
      mutex_ok = True \<rparr>"

definition attempt_no_mutex :: attempt_env where
  "attempt_no_mutex = attempt_ok \<lparr> mutex_ok := False \<rparr>"

definition dir_ok :: dir_env where
  "dir_ok = \<lparr> strdup_ok = True, dir_opens = True, mkdir_ok = True \<rparr>"

definition ex_append_env :: append_env where
  "ex_append_env = \<lparr> a_take_ok = True, a_dir = dir_ok, a_opens = True \<rparr>"

text \<open>A write whose file opens in the third round only, after the probe of the second
  round found the medium gone and the reinitialization succeeded.\<close>

definition ex_write_env :: write_env where
  "ex_write_env = \<lparr> w_take_ok = True, w_dir = dir_ok, w_root_opens = True,
      w_test_opens = True, w_temp_opens = True, w_open = (\<lambda>retry. retry = 2),
      w_alive = (\<lambda>retry. retry = 2), w_reinit = (\<lambda>retry attempt. attempt_ok),
      w_retake_ok = (\<lambda>retry. True) \<rparr>"

text \<open>Trials that pass and trials whose file does not open, for the free-space estimate
  and for the stability test.\<close>

definition probe_ok :: probe_env where
  "probe_ok = \<lparr> open_w = True, written = 4, open_r = True, read_bytes = 4,
      read_buffer = ''test'' \<rparr>"

definition probe_no_open :: probe_env where
  "probe_no_open = \<lparr> open_w = False, written = 0, open_r = False, read_bytes = 0,
      read_buffer = [] \<rparr>"

definition stab_ok :: probe_env where
  "stab_ok = \<lparr> open_w = True, written = 19, open_r = True, read_bytes = 19,
      read_buffer = stab_test_data \<rparr>"

text \<open>The number of iterations of the stability test that count as successful.\<close>

definition stab_successes :: "(nat \<Rightarrow> probe_env) \<Rightarrow> nat" where
  "stab_successes env = length (filter (\<lambda>i. fst (stab_iteration (env i) i)) [0 ..< test_iterations])"

subsection \<open>Auxiliary predicates\<close>

text \<open>Sequences without takes and gives, and sequences without file operations.\<close>

definition quiet :: "event list \<Rightarrow> bool" where
  "quiet es = (\<forall>e\<in>set es. \<not> is_lock_event e)"

definition no_file_ops :: "event list \<Rightarrow> bool" where
  "no_file_ops es = (\<forall>e\<in>set es. \<not> is_file_op e)"

text \<open>The locks taken in a sequence of events all satisfy \<open>P\<close>.\<close>

definition takes_only :: "(lock_id \<Rightarrow> bool) \<Rightarrow> event list \<Rightarrow> bool" where
  "takes_only P es = (\<forall>l. Take l \<in> set es \<longrightarrow> P l)"

text \<open>
  Along the events of a piece of \<^verbatim>\<open>sd_card_write_file\<close> that starts with the mutex
  \<open>m\<close> held: the piece ends with the mutex of the final state held, or with nothing held.
\<close>

definition lock_kept :: "nat \<Rightarrow> sd_state \<Rightarrow> event list \<Rightarrow> bool" where
  "lock_kept m st' evs =
     (\<exists>m'. sd_card_mutex st' = Some m'
        \<and> lock_discipline (Some (Manager_mutex m)) evs = Some (Some (Manager_mutex m')))"

definition lock_released :: "nat \<Rightarrow> event list \<Rightarrow> bool" where
  "lock_released m evs = (lock_discipline (Some (Manager_mutex m)) evs = Some None)"

text \<open>The invariant of the manager: a set mounted flag comes with a card handle and a
  mutex.\<close>

definition mounted_inv :: "sd_state \<Rightarrow> bool" where
  "mounted_inv st = (sd_card_initialized st \<longrightarrow> s_card st \<noteq> None \<and> sd_card_mutex st \<noteq> None)"

text \<open>An attempt fails in the bus configuration, and the error an attempt that fails in
  the bus configuration or in the mount leaves in \<^verbatim>\<open>ret\<close>.\<close>

definition bus_fails :: "attempt_env \<Rightarrow> bool" where
  "bus_fails a = (bus_result a \<noteq> ESP_OK \<and> bus_result a \<noteq> ESP_ERR_INVALID_STATE)"

definition attempt_error :: "attempt_env \<Rightarrow> esp_err_t" where
  "attempt_error a = (if bus_fails a then bus_result a else mount_result a)"

text \<open>Some trial of the free-space estimate passes: one of the candidate files, in one
  of its three tries.\<close>

definition any_probe_passes :: "(nat \<Rightarrow> nat \<Rightarrow> probe_env) \<Rightarrow> bool" where
  "any_probe_passes env =
     list_ex (\<lambda>file_idx. list_ex (\<lambda>retry. probe_passes (env file_idx retry)) [0 ..< 3])
       [0 ..< length test_files]"

text \<open>The mounts, the opens for writing and the deletions among the events.\<close>

definition is_mount :: "event \<Rightarrow> bool" where
  "is_mount e = (case e of Mount _ _ \<Rightarrow> True | _ \<Rightarrow> False)"


definition is_open_for_write :: "event \<Rightarrow> bool" where
  "is_open_for_write e = (case e of Fopen _ Mode_w \<Rightarrow> True | _ \<Rightarrow> False)"

definition is_remove :: "event \<Rightarrow> bool" where
  "is_remove e = (case e of Remove _ \<Rightarrow> True | _ \<Rightarrow> False)"

text \<open>Environments of the health checks: the first iteration of the stability test
  cannot open its file; the first \<open>k\<close> iterations succeed and the others cannot open
  their file; only the last try of the second candidate file passes.\<close>

definition stab_env_first_fails :: "nat \<Rightarrow> probe_env" where
  "stab_env_first_fails i = (if i = 0 then probe_no_open else stab_ok)"

definition stab_env_upto :: "nat \<Rightarrow> nat \<Rightarrow> probe_env" where
  "stab_env_upto k i = (if i < k then stab_ok else probe_no_open)"

definition probe_env_late :: "nat \<Rightarrow> nat \<Rightarrow> probe_env" where
  "probe_env_late file_idx retry = (if file_idx = 1 \<and> retry = 2 then probe_ok else probe_no_open)"

section \<open>Lemmas on the settings text format\<close>

lemma isdigit_char_of: "(n::nat) < 10 \<Longrightarrow> isdigit (char_of (48 + n))"
  by (simp add: isdigit_def)

lemma digits_value_dec_digits:
  "digits_value 0 (dec_digits n @ s) = digits_value n s"
proof (induction n arbitrary: s rule: dec_digits.induct)
  case (1 n)
  show ?case
  proof (cases "n < 10")
    case True
    then show ?thesis
      by (subst dec_digits.simps) (simp add: isdigit_def)
  next
    case False
    have d: "n mod 10 < 10" by simp
    have "digits_value 0 (dec_digits n @ s)
          = digits_value 0 (dec_digits (n div 10) @ char_of (48 + n mod 10) # s)"
      using False by (subst dec_digits.simps) simp
    also have "\<dots> = digits_value (n div 10) (char_of (48 + n mod 10) # s)"
      by (rule "1.IH" [OF False])
    also have "\<dots> = digits_value (n div 10 * 10 + n mod 10) s"
    proof -
      have "n mod 10 \<le> 9" using d by linarith
      then show ?thesis by (simp add: isdigit_def)
    qed
    finally show ?thesis by simp
  qed
qed

lemma dec_digits_isdigit: "c \<in> set (dec_digits n) \<Longrightarrow> isdigit c"
proof (induction n rule: dec_digits.induct)
  case (1 n)
  show ?case
  proof (cases "n < 10")
    case True
    with "1.prems" show ?thesis
      by (subst (asm) dec_digits.simps) (simp add: isdigit_def)
  next
    case False
    have d: "n mod 10 < 10" by simp
    from "1.prems" False have "c \<in> set (dec_digits (n div 10)) \<or> c = char_of (48 + n mod 10)"
      by (subst (asm) dec_digits.simps) auto
    then show ?thesis
      using "1.IH" [OF False] isdigit_char_of [OF d] by auto
  qed
qed

lemma dec_digits_nonempty: "dec_digits n \<noteq> []"
  by (subst dec_digits.simps) simp

lemma length_dec_digits: "n < 10 ^ k \<Longrightarrow> 0 < k \<Longrightarrow> length (dec_digits n) \<le> k"
proof (induction n arbitrary: k rule: dec_digits.induct)
  case (1 n)
  show ?case
  proof (cases "n < 10")
    case True
    with "1.prems" show ?thesis by (subst dec_digits.simps) simp
  next
    case False
    from False "1.prems" have k2: "1 < k"
      by (cases "k = 1") auto
    then obtain j where j: "k = Suc j" "0 < j" by (cases k) auto
    from "1.prems" j have "n div 10 < 10 ^ j" by (simp add: less_mult_imp_div_less)
    from "1.IH" [OF False this j(2)] have "length (dec_digits (n div 10)) \<le> j" .
    with False j show ?thesis by (subst dec_digits.simps) simp
  qed
qed

lemma word_of_int_sint32: "word_of_int (sint (w :: int32)) = w"
  by (metis scast_eq scast_id)

lemma sint32_range: "- 2147483648 \<le> sint (w :: int32) \<and> sint w \<le> 2147483647"
  using sint_ge [of w] sint_lt [of w] by simp

lemma not_digit_comma: "\<not> isdigit CHR '',''"
  by (simp add: isdigit_def)

lemma dropWhile_isspace_dec: "dropWhile isspace (dec_digits n @ s) = dec_digits n @ s"
proof -
  obtain c cs where e: "dec_digits n = c # cs"
    using dec_digits_nonempty [of n] by (cases "dec_digits n") auto
  then have "isdigit c" using dec_digits_isdigit [of c n] by simp
  then have "\<not> isspace c" by (auto simp: isdigit_def isspace_def)
  with e show ?thesis by simp
qed

lemma dec_digits_not_sign:
  "dec_digits n = c # cs \<Longrightarrow> c \<noteq> CHR ''-'' \<and> c \<noteq> CHR ''+''"
  using dec_digits_isdigit [of c n] by (auto simp: isdigit_def)

lemma strtol_fmt_d:
  assumes "LONG_MIN \<le> i" "i \<le> LONG_MAX"
  shows "strtol (fmt_d i @ CHR '','' # s) = i"
proof (cases "i < 0")
  case True
  have "\<not> isspace CHR ''-''" by (simp add: isspace_def)
  then have "strtol (fmt_d i @ CHR '','' # s)
        = max LONG_MIN (- int (digits_value 0 (dec_digits (nat (- i)) @ CHR '','' # s)))"
    using True by (simp add: strtol_def fmt_d_def)
  also have "\<dots> = max LONG_MIN (- int (nat (- i)))"
    by (simp add: digits_value_dec_digits not_digit_comma)
  finally show ?thesis using True assms by simp
next
  case False
  obtain c cs where e: "dec_digits (nat i) = c # cs"
    using dec_digits_nonempty [of "nat i"] by (cases "dec_digits (nat i)") auto
  note ns = dec_digits_not_sign [OF e]
  have "dropWhile isspace (dec_digits (nat i) @ CHR '','' # s) = c # cs @ CHR '','' # s"
    using dropWhile_isspace_dec [of "nat i" "CHR '','' # s"] e by simp
  then have "strtol (fmt_d i @ CHR '','' # s)
        = min LONG_MAX (int (digits_value 0 ((c # cs) @ CHR '','' # s)))"
    using False ns by (simp add: strtol_def fmt_d_def)
  also have "\<dots> = min LONG_MAX (int (nat i))"
    unfolding e [symmetric] by (simp add: digits_value_dec_digits not_digit_comma)
  finally show ?thesis using False assms by simp
qed

lemma atoi_fmt_d: "atoi (fmt_d (sint (w :: int32)) @ CHR '','' # s) = w"
  using sint32_range [of w]
  by (simp add: atoi_def strtol_fmt_d LONG_MIN_def LONG_MAX_def word_of_int_sint32)

lemma strstr_skip:
  "needle = n # ns \<Longrightarrow> \<forall>c\<in>set pre. c \<noteq> n \<Longrightarrow> strstr (pre @ s) needle = strstr s needle"
  by (induction pre) auto

lemma fmt_d_chars: "c \<in> set (fmt_d i) \<Longrightarrow> c = CHR ''-'' \<or> isdigit c"
  by (auto simp: fmt_d_def dest: dec_digits_isdigit split: if_splits)

lemma fmt_d_no_quote: "\<forall>c\<in>set (fmt_d i). c \<noteq> CHR 0x22"
  using fmt_d_chars by (fastforce simp: isdigit_def)

lemma fmt_d_no_nul: "\<forall>c\<in>set (fmt_d i). c \<noteq> CHR 0x00"
  using fmt_d_chars by (fastforce simp: isdigit_def)

lemma length_fmt_d:
  assumes "LONG_MIN \<le> i" "i \<le> LONG_MAX"
  shows "length (fmt_d i) \<le> 11"
proof (cases "i < 0")
  case True
  with assms have "nat (- i) < 10 ^ 10" by (simp add: LONG_MIN_def)
  from length_dec_digits [OF this] True show ?thesis by (simp add: fmt_d_def)
next
  case False
  with assms have "nat i < 10 ^ 10" by (simp add: LONG_MAX_def)
  from length_dec_digits [OF this] False show ?thesis by (simp add: fmt_d_def)
qed

lemma length_json_head: "length json_head = 15"
  by (simp add: json_head_def sens_key_def dquote_def)

lemma length_json_tail: "length (json_tail d s3) \<le> 43"
  by (simp add: json_tail_def demo_key_def s3_key_def dquote_def fmt_bool_def)

lemma settings_to_json_split:
  "settings_to_json r 256 =
     json_head @ fmt_d (sint (touch_sensitivity_level r))
       @ json_tail (demo_mode_enabled r) (screen3_enabled r)"
proof -
  let ?whole = "json_head @ fmt_d (sint (touch_sensitivity_level r))
       @ json_tail (demo_mode_enabled r) (screen3_enabled r)"
  have "length (fmt_d (sint (touch_sensitivity_level r))) \<le> 11"
    using sint32_range [of "touch_sensitivity_level r"]
    by (intro length_fmt_d) (simp_all add: LONG_MIN_def LONG_MAX_def)
  then have "length ?whole \<le> 255"
    using length_json_tail [of "demo_mode_enabled r" "screen3_enabled r"]
    by (simp add: length_json_head)
  moreover have "settings_to_json r 256 = take 255 ?whole"
    by (simp add: settings_to_json_def json_head_def json_tail_def)
  ultimately show ?thesis by simp
qed

lemma strstr_sens_key:
  "strstr (json_head @ D @ t) sens_key = Some (sens_key @ D @ t)"
  by (simp add: json_head_def sens_key_def dquote_def)

lemma strstr_head_demo_key:
  "strstr (json_head @ D @ json_tail d s3) demo_key = strstr (D @ json_tail d s3) demo_key"
  by (simp add: json_head_def sens_key_def demo_key_def dquote_def json_tail_def)

lemma strstr_head_s3_key:
  "strstr (json_head @ D @ json_tail d s3) s3_key = strstr (D @ json_tail d s3) s3_key"
  by (simp add: json_head_def sens_key_def s3_key_def demo_key_def dquote_def json_tail_def)

lemma strstr_tail_demo_key:
  "strstr (json_tail d s3) demo_key
     = Some (demo_key @ fmt_bool d @ '','' @ s3_key @ fmt_bool s3 @ ''}'')"
  by (simp add: json_tail_def demo_key_def dquote_def)

lemma strstr_tail_s3_key:
  "strstr (json_tail d s3) s3_key = Some (s3_key @ fmt_bool s3 @ ''}'')"
  by (simp add: json_tail_def demo_key_def s3_key_def dquote_def fmt_bool_def)

lemma strstr_true_demo:
  "(strstr (demo_key @ fmt_bool d @ '','' @ s3_key @ fmt_bool s3 @ ''}'') ''true'' \<noteq> None)
     = (d \<or> s3)"
  by (simp add: demo_key_def s3_key_def dquote_def fmt_bool_def)

lemma strstr_true_s3:
  "(strstr (s3_key @ fmt_bool s3 @ ''}'') ''true'' \<noteq> None) = s3"
  by (simp add: s3_key_def dquote_def fmt_bool_def)

lemma json_tail_Cons:
  "json_tail d s3 = CHR '','' # demo_key @ fmt_bool d @ '','' @ s3_key @ fmt_bool s3 @ ''}''"
  by (simp add: json_tail_def)

text \<open>
  What \<open>settings_from_json\<close> reads back from the output of \<open>settings_to_json\<close>. The
  demo-mode flag is searched for from its key to the end of the text, so a \<open>true\<close> of
  the screen3 key that follows is found as well.
\<close>

lemma from_json_to_json:
  "settings_from_json (settings_to_json r 256) cur =
     (True, cur \<lparr> touch_sensitivity_level := touch_sensitivity_level r,
                 demo_mode_enabled := (demo_mode_enabled r \<or> screen3_enabled r),
                 screen3_enabled := screen3_enabled r \<rparr>)"
proof -
  let ?D = "fmt_d (sint (touch_sensitivity_level r))"
  let ?t = "json_tail (demo_mode_enabled r) (screen3_enabled r)"
  have dk: "demo_key = CHR 0x22 # (''demo_mode'' @ [CHR 0x22] @ '':'')"
    by (simp add: demo_key_def dquote_def)
  have sk: "s3_key = CHR 0x22 # (''screen3_enabled'' @ [CHR 0x22] @ '':'')"
    by (simp add: s3_key_def dquote_def)
  have a: "strstr (json_head @ ?D @ ?t) sens_key = Some (sens_key @ ?D @ ?t)"
    by (rule strstr_sens_key)
  have b: "strstr (json_head @ ?D @ ?t) demo_key
      = Some (demo_key @ fmt_bool (demo_mode_enabled r) @ '','' @ s3_key
               @ fmt_bool (screen3_enabled r) @ ''}'')"
    using strstr_skip [OF dk fmt_d_no_quote, of "sint (touch_sensitivity_level r)" ?t]
    by (simp only: strstr_head_demo_key strstr_tail_demo_key)
  have c: "strstr (json_head @ ?D @ ?t) s3_key
      = Some (s3_key @ fmt_bool (screen3_enabled r) @ ''}'')"
    using strstr_skip [OF sk fmt_d_no_quote, of "sint (touch_sensitivity_level r)" ?t]
    by (simp only: strstr_head_s3_key strstr_tail_s3_key)
  have d: "atoi (drop (length sens_key) (sens_key @ ?D @ ?t)) = touch_sensitivity_level r"
    by (simp add: json_tail_Cons atoi_fmt_d)
  show ?thesis
    unfolding settings_from_json_def settings_to_json_split a b c
    by (simp only: d strstr_true_demo strstr_true_s3 prod.case option.case)
qed

lemma json_no_nul: "\<forall>c\<in>set (settings_to_json r 256). c \<noteq> CHR 0x00"
  using fmt_d_no_nul [of "sint (touch_sensitivity_level r)"]
  by (auto simp: settings_to_json_split json_head_def json_tail_def sens_key_def demo_key_def
      s3_key_def dquote_def fmt_bool_def)

text \<open>
  The text handed to \<open>s_example_write_file\<close> holds no conversion specification.
\<close>

lemma json_no_percent: "\<forall>c\<in>set (settings_to_json r 256). c \<noteq> CHR ''%''"
  using fmt_d_chars [of "CHR ''%''" "sint (touch_sensitivity_level r)"]
  by (auto simp: settings_to_json_split json_head_def json_tail_def sens_key_def demo_key_def
      s3_key_def dquote_def fmt_bool_def isdigit_def)

lemma c_string_json:
  "c_string (take 255 (settings_to_json r 256)) = settings_to_json r 256"
proof -
  have "length (settings_to_json r 256) \<le> 255"
    by (simp add: settings_to_json_def)
  then have "take 255 (settings_to_json r 256) = settings_to_json r 256"
    by (rule take_all)
  then show ?thesis
    using json_no_nul [of r] by (simp add: c_string_def takeWhile_eq_all_conv)
qed

lemma settings_save_ok:
  "fst (settings_save env r st) = Some ESP_OK \<Longrightarrow>
     fst (snd (settings_save env r st))
       = st \<lparr> sd_files := (sd_files st)(settings_path \<mapsto> settings_to_json r 256) \<rparr>
     \<and> settings_sd_card_mutex st"
  by (auto simp: settings_save_def s_example_write_file_def Let_def split: if_splits)

lemma settings_save_current:
  "current_settings (fst (snd (settings_save env r st))) = current_settings st"
  by (simp add: settings_save_def s_example_write_file_def Let_def)

lemma settings_load_parsed:
  assumes "settings_sd_card_mutex st \<or> mutex_created env" "lock_taken env" "read_opens env"
    and "sd_files st settings_path = Some content"
    and "settings_from_json (c_string (take 255 content)) (current_settings st) = (True, parsed)"
  shows "fst (settings_load k env st) = ESP_OK"
    and "fst (snd (settings_load k env st))
           = st \<lparr> settings_sd_card_mutex := True, current_settings := parsed \<rparr>"
  using assms by (auto simp: settings_load_def Let_def)

lemma settings_load_not_ok:
  "fst (settings_load k env st) \<noteq> ESP_OK \<Longrightarrow>
     current_settings (fst (snd (settings_load k env st)))
       = settings_init_defaults k (current_settings st)"
  by (auto simp: settings_load_def Let_def settings_save_def s_example_write_file_def
      split: if_splits option.splits prod.splits bool.splits)

lemma save_then_load_eq:
  "save_then_load k env env2 r st =
     (fst (settings_save env r st),
      fst (settings_load k env2 (fst (snd (settings_save env r st)))),
      current_settings (fst (snd (settings_load k env2 (fst (snd (settings_save env r st)))))))"
  by (simp add: save_then_load_def split: prod.splits)

text \<open>
  Claim C1, as the code has it. Let \<open>settings_save\<close> of a record \<open>r\<close> succeed and let
  the following \<open>settings_load\<close> get its lock and open the file. Then the load returns
  \<open>ESP_OK\<close>, and the current settings hold the sensitivity and the screen3 flag of \<open>r\<close>,
  for every 32-bit sensitivity. The demo-mode flag is the one of \<open>r\<close> whenever it is set
  or the screen3 flag is clear. The two per-arc arrays are not part of the file: they stay
  what they were in memory before the load.
\<close>

theorem settings_round_trip_persisted_fields:
  assumes run: "save_then_load k env env2 r st = (Some ESP_OK, res, cur)"
    and lock: "lock_taken env2" and opens: "read_opens env2"
  shows "res = ESP_OK
    \<and> touch_sensitivity_level cur = touch_sensitivity_level r
    \<and> screen3_enabled cur = screen3_enabled r
    \<and> (demo_mode_enabled r \<or> \<not> screen3_enabled r \<longrightarrow> demo_mode_enabled cur = demo_mode_enabled r)
    \<and> screen1_arcs_enabled cur = screen1_arcs_enabled (current_settings st)
    \<and> screen2_arcs_enabled cur = screen2_arcs_enabled (current_settings st)"
proof -
  let ?st1 = "fst (snd (settings_save env r st))"
  let ?json = "settings_to_json r 256"
  from run have saved: "fst (settings_save env r st) = Some ESP_OK"
    and res: "res = fst (settings_load k env2 ?st1)"
    and cur: "cur = current_settings (fst (snd (settings_load k env2 ?st1)))"
    by (simp_all add: save_then_load_eq)
  from settings_save_ok [OF saved]
  have st1: "?st1 = st \<lparr> sd_files := (sd_files st)(settings_path \<mapsto> ?json) \<rparr>"
    and mtx: "settings_sd_card_mutex st" by simp_all
  have fl: "sd_files ?st1 settings_path = Some ?json" by (simp add: st1)
  have cur1: "current_settings ?st1 = current_settings st" by (simp add: st1)
  have m1: "settings_sd_card_mutex ?st1 \<or> mutex_created env2" using mtx by (simp add: st1)
  have parse: "settings_from_json (c_string (take 255 ?json)) (current_settings ?st1)
      = (True, (current_settings st) \<lparr> touch_sensitivity_level := touch_sensitivity_level r,
                 demo_mode_enabled := (demo_mode_enabled r \<or> screen3_enabled r),
                 screen3_enabled := screen3_enabled r \<rparr>)"
    by (simp only: c_string_json from_json_to_json cur1)
  note l = settings_load_parsed [OF m1 lock opens fl parse, of k]
  show ?thesis
    unfolding res cur by (simp only: l) auto
qed

lemma ex_save_then_load:
  "save_then_load ex_consts env_all_ok env_all_ok ex_record ex_settings_state
     = (Some ESP_OK, ESP_OK, ex_boot_settings \<lparr> touch_sensitivity_level := 7 \<rparr>)"
  by code_simp

text \<open>
  The theorem at a concrete record, saved and loaded on a working medium.
\<close>

theorem settings_round_trip_persisted_fields_witness:
  "save_then_load ex_consts env_all_ok env_all_ok ex_record ex_settings_state
     = (Some ESP_OK, ESP_OK, ex_boot_settings \<lparr> touch_sensitivity_level := 7 \<rparr>)
   \<and> lock_taken env_all_ok \<and> read_opens env_all_ok
   \<and> (demo_mode_enabled ex_record \<or> \<not> screen3_enabled ex_record)
   \<and> touch_sensitivity_level (ex_boot_settings \<lparr> touch_sensitivity_level := 7 \<rparr>)
        = touch_sensitivity_level ex_record
   \<and> demo_mode_enabled (ex_boot_settings \<lparr> touch_sensitivity_level := 7 \<rparr>)
        = demo_mode_enabled ex_record"
proof -
  have h2: "lock_taken env_all_ok" and h3: "read_opens env_all_ok"
    by (simp_all add: env_all_ok_def)
  have h4: "demo_mode_enabled ex_record \<or> \<not> screen3_enabled ex_record"
    by (simp add: ex_record_def)
  from settings_round_trip_persisted_fields [OF ex_save_then_load h2 h3] ex_save_then_load h2 h3 h4
  show ?thesis by blast
qed

text \<open>
  Claim C1 as stated fails: the record \<open>ex_record\<close> has its first arc hidden, the
  settings in memory are the ones installed at start-up; the save succeeds, the load
  returns \<open>ESP_OK\<close>, and the current settings differ from the record saved.
\<close>

theorem settings_round_trip_counterexample:
  "save_then_load ex_consts env_all_ok env_all_ok ex_record ex_settings_state
     = (Some ESP_OK, ESP_OK, ex_boot_settings \<lparr> touch_sensitivity_level := 7 \<rparr>)
   \<and> ex_boot_settings \<lparr> touch_sensitivity_level := 7 \<rparr> \<noteq> ex_record"
  by (simp add: ex_save_then_load) (simp add: ex_boot_settings_def ex_record_def)

lemma set_all_true_prefix:
  "m \<le> length arcs \<Longrightarrow>
     fold (\<lambda>i xs. xs[i := True]) [0 ..< m] arcs = replicate m True @ drop m arcs"
proof (induction m)
  case 0
  then show ?case by simp
next
  case (Suc m)
  then have m: "m < length arcs" by simp
  then have "drop m arcs = arcs ! m # drop (Suc m) arcs"
    by (simp add: Cons_nth_drop_Suc)
  then have "(replicate m True @ drop m arcs)[m := True]
      = replicate m True @ True # drop (Suc m) arcs"
    by (simp add: list_update_append)
  with Suc show ?case by (simp add: replicate_append_same)
qed

lemma set_all_true_replicate:
  "length arcs = n \<Longrightarrow> set_all_true n arcs = replicate n True"
  by (simp add: set_all_true_def set_all_true_prefix)

lemma settings_load_absent:
  assumes "sd_files st settings_path = None"
    and "settings_sd_card_mutex st \<or> mutex_created env" and "lock_taken env"
  shows "fst (settings_load k env st) = ESP_ERR_NOT_FOUND"
    and "current_settings (fst (snd (settings_load k env st)))
           = settings_init_defaults k (current_settings st)"
    and "settings_sd_card_mutex (fst (snd (settings_load k env st)))"
    and "write_lock_taken env \<Longrightarrow> write_opens env \<Longrightarrow>
           sd_files (fst (snd (settings_load k env st))) settings_path
             = Some (settings_to_json (settings_init_defaults k (current_settings st)) 256)"
  using assms
  by (auto simp: settings_load_def settings_save_def s_example_write_file_def Let_def
      split: prod.splits)

lemma load_then_load_eq:
  "load_then_load k env env2 st =
     (fst (settings_load k env st),
      current_settings (fst (snd (settings_load k env st))),
      sd_files (fst (snd (settings_load k env st))) settings_path,
      fst (settings_load k env2 (fst (snd (settings_load k env st)))),
      current_settings (fst (snd (settings_load k env2 (fst (snd (settings_load k env st)))))))"
  by (simp add: load_then_load_def split: prod.splits)

text \<open>
  The slip in the parser at a concrete record: demo mode off and feature screen on is
  saved as such and read back with demo mode on.
\<close>

lemma demo_mode_read_back_example:
  "settings_to_json ex_record_demo_off 256
     = ''{'' @ sens_key @ ''5,'' @ demo_key @ ''false,'' @ s3_key @ ''true}''
   \<and> save_then_load ex_consts env_all_ok env_all_ok ex_record_demo_off ex_settings_state
     = (Some ESP_OK, ESP_OK, ex_record_demo_off \<lparr> demo_mode_enabled := True \<rparr>)"
  by code_simp

text \<open>
  Claim C5, as the code has it. With no settings file on the medium, a mutex at hand and
  the lock taken, \<open>settings_load\<close> returns \<open>ESP_ERR_NOT_FOUND\<close> and installs the
  defaults. The save that follows is an attempt: when it gets its lock and the file opens
  for writing, the file holds the serialized defaults, and a following load that gets its
  lock and opens the file returns \<open>ESP_OK\<close> with the default sensitivity and screen3 flag
  and the arrays unchanged; the whole record is the default one again whenever the default
  demo-mode flag is set or the default screen3 flag is clear.
\<close>

theorem settings_load_absent_bootstrap:
  assumes run: "load_then_load k env env2 st = (res1, cur1, fl, res2, cur2)"
    and absent: "sd_files st settings_path = None"
    and mtx: "settings_sd_card_mutex st \<or> mutex_created env"
    and lock: "lock_taken env"
  shows "res1 = ESP_ERR_NOT_FOUND
    \<and> cur1 = settings_init_defaults k (current_settings st)
    \<and> (write_lock_taken env \<and> write_opens env \<longrightarrow>
         fl = Some (settings_to_json cur1 256)
         \<and> (lock_taken env2 \<and> read_opens env2 \<longrightarrow>
              res2 = ESP_OK
              \<and> touch_sensitivity_level cur2 = DEFAULT_TOUCH_SENSITIVITY k
              \<and> screen3_enabled cur2 = DEFAULT_SCREEN3_ENABLED k
              \<and> screen1_arcs_enabled cur2 = screen1_arcs_enabled cur1
              \<and> screen2_arcs_enabled cur2 = screen2_arcs_enabled cur1
              \<and> (DEFAULT_DEMO_MODE_ENABLED k \<or> \<not> DEFAULT_SCREEN3_ENABLED k \<longrightarrow> cur2 = cur1)))"
proof -
  let ?st1 = "fst (snd (settings_load k env st))"
  let ?d = "settings_init_defaults k (current_settings st)"
  note a = settings_load_absent [OF absent mtx lock, of k]
  from run have r1: "res1 = fst (settings_load k env st)"
    and c1: "cur1 = current_settings ?st1"
    and f: "fl = sd_files ?st1 settings_path"
    and r2: "res2 = fst (settings_load k env2 ?st1)"
    and c2: "cur2 = current_settings (fst (snd (settings_load k env2 ?st1)))"
    by (simp_all add: load_then_load_eq)
  have p1: "res1 = ESP_ERR_NOT_FOUND" and p2: "cur1 = ?d"
    by (simp_all add: r1 c1 a)
  have p3: "fl = Some (settings_to_json cur1 256)
      \<and> (lock_taken env2 \<and> read_opens env2 \<longrightarrow>
              res2 = ESP_OK
              \<and> touch_sensitivity_level cur2 = DEFAULT_TOUCH_SENSITIVITY k
              \<and> screen3_enabled cur2 = DEFAULT_SCREEN3_ENABLED k
              \<and> screen1_arcs_enabled cur2 = screen1_arcs_enabled cur1
              \<and> screen2_arcs_enabled cur2 = screen2_arcs_enabled cur1
              \<and> (DEFAULT_DEMO_MODE_ENABLED k \<or> \<not> DEFAULT_SCREEN3_ENABLED k \<longrightarrow> cur2 = cur1))"
    if w: "write_lock_taken env" "write_opens env"
  proof -
    have fl1: "sd_files ?st1 settings_path = Some (settings_to_json ?d 256)"
      using a(4) [OF w] .
    have q1: "fl = Some (settings_to_json cur1 256)" by (simp add: f fl1 p2)
    have q2: "res2 = ESP_OK
              \<and> touch_sensitivity_level cur2 = DEFAULT_TOUCH_SENSITIVITY k
              \<and> screen3_enabled cur2 = DEFAULT_SCREEN3_ENABLED k
              \<and> screen1_arcs_enabled cur2 = screen1_arcs_enabled cur1
              \<and> screen2_arcs_enabled cur2 = screen2_arcs_enabled cur1
              \<and> (DEFAULT_DEMO_MODE_ENABLED k \<or> \<not> DEFAULT_SCREEN3_ENABLED k \<longrightarrow> cur2 = cur1)"
      if l2: "lock_taken env2" "read_opens env2"
    proof -
      have m1: "settings_sd_card_mutex ?st1 \<or> mutex_created env2" using a(3) by simp
      have parse: "settings_from_json (c_string (take 255 (settings_to_json ?d 256)))
            (current_settings ?st1)
          = (True, ?d \<lparr> touch_sensitivity_level := touch_sensitivity_level ?d,
                 demo_mode_enabled := (demo_mode_enabled ?d \<or> screen3_enabled ?d),
                 screen3_enabled := screen3_enabled ?d \<rparr>)"
        by (simp only: c_string_json from_json_to_json a(2))
      note l = settings_load_parsed [OF m1 l2 fl1 parse, of k]
      show ?thesis
        unfolding r2 c2 p2 by (simp only: l) (auto simp: settings_init_defaults_def)
    qed
    from q1 q2 show ?thesis by blast
  qed
  from p1 p2 p3 show ?thesis by blast
qed

lemma ex_load_then_load:
  "load_then_load ex_consts env_all_ok env_all_ok ex_boot_state
     = (ESP_ERR_NOT_FOUND, ex_boot_settings, Some (settings_to_json ex_boot_settings 256),
        ESP_OK, ex_boot_settings)"
  by code_simp

text \<open>
  The theorem at the start-up state with a working medium.
\<close>

theorem settings_load_absent_bootstrap_witness:
  "load_then_load ex_consts env_all_ok env_all_ok ex_boot_state
     = (ESP_ERR_NOT_FOUND, ex_boot_settings, Some (settings_to_json ex_boot_settings 256),
        ESP_OK, ex_boot_settings)
   \<and> sd_files ex_boot_state settings_path = None
   \<and> (settings_sd_card_mutex ex_boot_state \<or> mutex_created env_all_ok)
   \<and> lock_taken env_all_ok \<and> write_lock_taken env_all_ok \<and> write_opens env_all_ok
   \<and> read_opens env_all_ok
   \<and> (DEFAULT_DEMO_MODE_ENABLED ex_consts \<or> \<not> DEFAULT_SCREEN3_ENABLED ex_consts)
   \<and> ex_boot_settings = settings_init_defaults ex_consts (current_settings ex_boot_state)"
proof -
  have h1: "sd_files ex_boot_state settings_path = None" by (simp add: ex_boot_state_def)
  have h2: "settings_sd_card_mutex ex_boot_state \<or> mutex_created env_all_ok"
    by (simp add: env_all_ok_def)
  have h3: "lock_taken env_all_ok" "write_lock_taken env_all_ok" "write_opens env_all_ok"
    "read_opens env_all_ok" by (simp_all add: env_all_ok_def)
  have h4: "DEFAULT_DEMO_MODE_ENABLED ex_consts \<or> \<not> DEFAULT_SCREEN3_ENABLED ex_consts"
    by (simp add: ex_consts_def)
  from settings_load_absent_bootstrap [OF ex_load_then_load h1 h2 h3(1)]
    ex_load_then_load h1 h2 h3 h4
  show ?thesis by blast
qed

text \<open>
  Claim C5 as stated fails: on a medium that cannot be written, the load of an absent file
  returns \<open>ESP_ERR_NOT_FOUND\<close> and leaves no file behind, and the following load returns
  \<open>ESP_ERR_NOT_FOUND\<close> again.
\<close>

theorem settings_load_absent_counterexample:
  "sd_files ex_boot_state settings_path = None
   \<and> load_then_load ex_consts env_write_protected env_write_protected ex_boot_state
     = (ESP_ERR_NOT_FOUND, ex_boot_settings, None, ESP_ERR_NOT_FOUND, ex_boot_settings)"
  by code_simp

text \<open>
  Claim C7, as the code has it. With defaults inside the declared range, the record is
  valid after \<open>settings_init_defaults\<close>, after every \<open>settings_load\<close> that does not
  return \<open>ESP_OK\<close>, and after \<open>settings_save\<close> when it was valid before. A load that
  returns \<open>ESP_OK\<close> is left out: it stores the sensitivity of the file and does not call
  \<open>settings_validate\<close>.
\<close>

theorem settings_validity_preserved:
  assumes "defaults_in_range k"
  shows "settings_validate k (settings_init_defaults k r)
    \<and> (fst (settings_load k env st) \<noteq> ESP_OK \<longrightarrow>
         settings_validate k (current_settings (fst (snd (settings_load k env st)))))
    \<and> (settings_validate k (current_settings st) \<longrightarrow>
         settings_validate k (current_settings (fst (snd (settings_save env r st)))))"
proof -
  have d: "settings_validate k (settings_init_defaults k x)" for x
    using assms by (simp add: defaults_in_range_def settings_validate_def settings_init_defaults_def)
  show ?thesis
    using d by (simp add: settings_load_not_ok settings_save_current)
qed

text \<open>
  The theorem at the start-up state on a medium that cannot be written.
\<close>

theorem settings_validity_preserved_witness:
  "defaults_in_range ex_consts
   \<and> fst (settings_load ex_consts env_write_protected ex_boot_state) \<noteq> ESP_OK
   \<and> settings_validate ex_consts (current_settings ex_boot_state)
   \<and> settings_validate ex_consts (settings_init_defaults ex_consts ex_record)
   \<and> settings_validate ex_consts
        (current_settings (fst (snd (settings_load ex_consts env_write_protected ex_boot_state))))
   \<and> settings_validate ex_consts
        (current_settings (fst (snd (settings_save env_write_protected ex_record ex_boot_state))))"
proof -
  have h1: "defaults_in_range ex_consts" by code_simp
  have h2: "fst (settings_load ex_consts env_write_protected ex_boot_state) \<noteq> ESP_OK"
    by code_simp
  have h3: "settings_validate ex_consts (current_settings ex_boot_state)" by code_simp
  from settings_validity_preserved
    [OF h1, where r = ex_record and env = env_write_protected and st = ex_boot_state]
    h1 h2 h3
  show ?thesis by blast
qed

text \<open>
  Claim C7 as stated fails: with the range 1 to 10, a file whose sensitivity is 9999 loads
  with \<open>ESP_OK\<close> and leaves a record that \<open>settings_validate\<close> rejects.
\<close>

theorem settings_validity_counterexample:
  "fst (settings_load ex_consts env_all_ok ex_state_with_file) = ESP_OK
   \<and> \<not> settings_validate ex_consts
         (current_settings (fst (snd (settings_load ex_consts env_all_ok ex_state_with_file))))"
  by code_simp

text \<open>
  The same for any declared range: a file written from a record whose sensitivity is above
  the maximum loads with \<open>ESP_OK\<close> and leaves an invalid record.
\<close>

lemma settings_load_sensitivity_unchecked:
  assumes "sd_files st settings_path = Some (settings_to_json r 256)"
    and "settings_sd_card_mutex st \<or> mutex_created env" "lock_taken env" "read_opens env"
    and "sint (MAX_TOUCH_SENSITIVITY k) < sint (touch_sensitivity_level r)"
  shows "fst (settings_load k env st) = ESP_OK
    \<and> \<not> settings_validate k (current_settings (fst (snd (settings_load k env st))))"
proof -
  have parse: "settings_from_json (c_string (take 255 (settings_to_json r 256))) (current_settings st)
      = (True, (current_settings st) \<lparr> touch_sensitivity_level := touch_sensitivity_level r,
                 demo_mode_enabled := (demo_mode_enabled r \<or> screen3_enabled r),
                 screen3_enabled := screen3_enabled r \<rparr>)"
    by (simp only: c_string_json from_json_to_json)
  note l = settings_load_parsed [OF assms(2,3,4,1) parse, of k]
  show ?thesis using assms(5) by (simp add: l settings_validate_def)
qed

section \<open>Lemmas on event sequences\<close>

lemma quiet_simps [simp]:
  "quiet []" "quiet (xs @ ys) = (quiet xs \<and> quiet ys)"
  "quiet (e # es) = (\<not> is_lock_event e \<and> quiet es)"
  by (auto simp: quiet_def)

lemma no_file_ops_simps [simp]:
  "no_file_ops []" "no_file_ops (xs @ ys) = (no_file_ops xs \<and> no_file_ops ys)"
  "no_file_ops (e # es) = (\<not> is_file_op e \<and> no_file_ops es)"
  by (auto simp: no_file_ops_def)

lemma is_file_op_simps [simp]:
  "is_file_op (Fopen p m)" "is_file_op (Opendir p)" "is_file_op (Mkdir p)" "is_file_op (Remove p)"
  "\<not> is_file_op (Take l)" "\<not> is_file_op (Take_timeout l)" "\<not> is_file_op (Give l)"
  "\<not> is_file_op (Mutex_create l)" "\<not> is_file_op (Mutex_delete l)" "\<not> is_file_op (Delay n)"
  "\<not> is_file_op Bus_initialize" "\<not> is_file_op Bus_free" "\<not> is_file_op (Mount f k)"
  "\<not> is_file_op Unmount"
  by (simp_all add: is_file_op_def)

lemma is_lock_event_simps [simp]:
  "is_lock_event (Take l)" "is_lock_event (Give l)"
  "\<not> is_lock_event (Fopen p m)" "\<not> is_lock_event (Opendir p)" "\<not> is_lock_event (Mkdir p)"
  "\<not> is_lock_event (Remove p)" "\<not> is_lock_event (Take_timeout l)"
  "\<not> is_lock_event (Mutex_create l)" "\<not> is_lock_event (Mutex_delete l)"
  "\<not> is_lock_event (Delay n)" "\<not> is_lock_event Bus_initialize" "\<not> is_lock_event Bus_free"
  "\<not> is_lock_event (Mount f k)" "\<not> is_lock_event Unmount"
  by (simp_all add: is_lock_event_def)

lemma takes_only_simps [simp]:
  "takes_only P []" "takes_only P (xs @ ys) = (takes_only P xs \<and> takes_only P ys)"
  "takes_only P (e # es) = ((case e of Take l \<Rightarrow> P l | _ \<Rightarrow> True) \<and> takes_only P es)"
  by (auto simp: takes_only_def split: event.splits)

lemma takes_only_quiet: "quiet es \<Longrightarrow> takes_only P es"
  by (auto simp: takes_only_def quiet_def is_lock_event_def)

lemma lock_discipline_append:
  "lock_discipline h (xs @ ys)
     = (case lock_discipline h xs of None \<Rightarrow> None | Some h' \<Rightarrow> lock_discipline h' ys)"
  by (induction xs arbitrary: h) (auto split: event.splits)

lemma lock_discipline_quiet: "quiet es \<Longrightarrow> lock_discipline h es = Some h"
  by (induction es) (auto simp: is_lock_event_def split: event.splits)

lemma held_after_append: "held_after h (xs @ ys) = held_after (held_after h xs) ys"
  by (induction xs arbitrary: h) (auto split: event.splits)

lemma held_after_quiet: "quiet es \<Longrightarrow> held_after h es = h"
  by (induction es) (auto simp: is_lock_event_def split: event.splits)

lemma unguarded_ops_append:
  "unguarded_ops h (xs @ ys) = unguarded_ops h xs @ unguarded_ops (held_after h xs) ys"
  by (induction xs arbitrary: h) (auto split: event.splits)

lemma unguarded_ops_held: "quiet es \<Longrightarrow> unguarded_ops (Some l) es = []"
  by (induction es) (auto simp: is_lock_event_def split: event.splits)

lemma unguarded_ops_no_file_ops: "quiet es \<Longrightarrow> no_file_ops es \<Longrightarrow> unguarded_ops h es = []"
  by (induction es) (auto simp: is_lock_event_def split: event.splits)

section \<open>Teardown and initialization\<close>

lemma deinit_events:
  "quiet (snd (snd (sd_card_deinit st)))" "no_file_ops (snd (snd (sd_card_deinit st)))"
  by (auto simp: sd_card_deinit_def is_lock_event_def is_file_op_def split: option.splits)

lemma full_deinit_events:
  "quiet (snd (snd (sd_card_full_deinit st)))" "no_file_ops (snd (snd (sd_card_full_deinit st)))"
  using deinit_events [of st]
  by (auto simp: sd_card_full_deinit_def is_lock_event_def is_file_op_def split: prod.splits)

lemma full_deinit_state:
  "fst (snd (sd_card_full_deinit st))
     = st \<lparr> sd_card_initialized := False, s_card := None, sd_card_mutex := None \<rparr>"
  by (simp add: sd_card_full_deinit_def sd_card_deinit_def)

lemma init_attempt_events:
  "quiet (snd (snd (init_attempt a n st)))" "no_file_ops (snd (snd (init_attempt a n st)))"
  by (simp_all add: init_attempt_def Let_def split_def full_deinit_events
      is_lock_event_def is_file_op_def)

lemma init_attempts_events:
  "quiet (snd (snd (init_attempts env ns ret st)))
   \<and> no_file_ops (snd (snd (init_attempts env ns ret st)))"
proof (induction ns arbitrary: ret st)
  case Nil
  show ?case by simp
next
  case (Cons n ns)
  obtain fin r st1 ev1 where a: "init_attempt (env n) n st = ((fin, r), st1, ev1)"
    by (metis prod.exhaust)
  have q: "quiet ev1" "no_file_ops ev1"
    using init_attempt_events [of "env n" n st] by (simp_all add: a)
  show ?case
    using q Cons.IH [of r st1] by (cases fin) (simp_all add: a split_def)
qed

lemma sd_card_init_events:
  "quiet (snd (snd (sd_card_init env st)))" "no_file_ops (snd (snd (sd_card_init env st)))"
  using init_attempts_events
  by (simp_all add: sd_card_init_def split_def full_deinit_events is_lock_event_def
      is_file_op_def)

lemma attempts_list: "[1 ..< Suc max_retries] = [1, 2, 3]"
  by (simp add: max_retries_def upt_rec)

text \<open>
  The schedule of an attempt: the settle delay of 300 ms times the attempt number, the bus
  configuration, and, unless that fails, the mount, without format and at 8000 kHz in the
  first attempt, with format and at 4000 kHz in the later ones. There are at most three
  mounts.
\<close>

lemma init_attempt_schedule:
  "take 2 (snd (snd (init_attempt a n st))) = [Delay (300 * n), Bus_initialize]"
  "\<not> bus_fails a \<Longrightarrow>
     take 3 (snd (snd (init_attempt a n st)))
       = [Delay (300 * n), Bus_initialize, Mount (1 < n) (if n = 1 then 8000 else 4000)]"
  by (auto simp: init_attempt_def bus_fails_def Let_def split_def)

lemma full_deinit_mounts: "filter is_mount (snd (snd (sd_card_full_deinit st))) = []"
  by (simp add: sd_card_full_deinit_def sd_card_deinit_def is_mount_def split: option.splits)

lemma init_attempt_mounts: "length (filter is_mount (snd (snd (init_attempt a n st)))) \<le> 1"
  by (simp add: init_attempt_def Let_def split_def full_deinit_mounts is_mount_def)

lemma init_attempts_mounts:
  "length (filter is_mount (snd (snd (init_attempts env ns ret st)))) \<le> length ns"
proof (induction ns arbitrary: ret st)
  case Nil
  show ?case by simp
next
  case (Cons n ns)
  obtain fin r st1 ev1 where a: "init_attempt (env n) n st = ((fin, r), st1, ev1)"
    by (metis prod.exhaust)
  have "length (filter is_mount ev1) \<le> 1"
    using init_attempt_mounts [of "env n" n st] by (simp add: a)
  then show ?case
    using Cons.IH [of r st1] by (cases fin) (simp_all add: a split_def)
qed

lemma sd_card_init_mounts:
  "length (filter is_mount (snd (snd (sd_card_init env st)))) \<le> 3"
proof -
  define ns where "ns = [1 ..< Suc max_retries]"
  have len: "length ns \<le> 3" by (simp add: ns_def max_retries_def)
  have k: "length (filter is_mount (snd (snd (init_attempts env ns ret s)))) \<le> 3" for ret s
    by (rule order_trans [OF init_attempts_mounts len])
  show ?thesis
    unfolding sd_card_init_def ns_def [symmetric]
    by (simp add: split_def full_deinit_mounts is_mount_def k)
qed

text \<open>
  When every attempt fails in the bus configuration or in the mount, the function returns
  the error of the last attempt and leaves the medium unmounted.
\<close>

lemma init_attempt_error:
  assumes "bus_fails a \<or> mount_result a \<noteq> ESP_OK"
  shows "fst (init_attempt a n st) = (False, attempt_error a)"
    and "\<not> sd_card_initialized (fst (snd (init_attempt a n st)))"
  using assms
  by (auto simp: init_attempt_def bus_fails_def attempt_error_def Let_def split_def
      full_deinit_state)

lemma init_attempts_all_fail:
  assumes "\<forall>n\<in>set ns. bus_fails (env n) \<or> mount_result (env n) \<noteq> ESP_OK"
    and "\<not> sd_card_initialized st"
  shows "fst (init_attempts env ns ret st) = (if ns = [] then ret else attempt_error (env (last ns)))
    \<and> \<not> sd_card_initialized (fst (snd (init_attempts env ns ret st)))"
  using assms
proof (induction ns arbitrary: ret st)
  case Nil
  then show ?case by simp
next
  case (Cons n ns)
  from Cons.prems(1) have f: "bus_fails (env n) \<or> mount_result (env n) \<noteq> ESP_OK" by simp
  note a = init_attempt_error [OF f, of n st]
  obtain st1 ev1 where s: "init_attempt (env n) n st = ((False, attempt_error (env n)), st1, ev1)"
    using a(1) by (metis prod.collapse)
  have n1: "\<not> sd_card_initialized st1" using a(2) by (simp add: s)
  from Cons.prems(1) have r: "\<forall>n\<in>set ns. bus_fails (env n) \<or> mount_result (env n) \<noteq> ESP_OK"
    by simp
  from Cons.IH [OF r n1, of "attempt_error (env n)"] show ?case
    by (simp add: s split_def)
qed

lemma sd_card_init_last_error:
  assumes "\<forall>n\<in>{1, 2, 3}. bus_fails (env n) \<or> mount_result (env n) \<noteq> ESP_OK"
  shows "fst (sd_card_init env st) = attempt_error (env 3)"
    and "\<not> sd_card_initialized (fst (snd (sd_card_init env st)))"
proof -
  define st0 where
    "st0 = (if sd_card_initialized st then fst (snd (sd_card_full_deinit st)) else st)"
  have l: "\<forall>n\<in>set [1, 2, 3]. bus_fails (env n) \<or> mount_result (env n) \<noteq> ESP_OK"
    using assms by simp
  have n0: "\<not> sd_card_initialized st0"
    by (simp add: st0_def full_deinit_state)
  have e: "fst (sd_card_init env st) = fst (init_attempts env [1, 2, 3] ESP_FAIL st0)"
    "fst (snd (sd_card_init env st)) = fst (snd (init_attempts env [1, 2, 3] ESP_FAIL st0))"
    unfolding sd_card_init_def attempts_list st0_def
    by (simp_all add: split_def del: init_attempts.simps)
  from init_attempts_all_fail [OF l n0, of ESP_FAIL]
  have k: "fst (init_attempts env [1, 2, 3] ESP_FAIL st0) = attempt_error (env 3)"
    "\<not> sd_card_initialized (fst (snd (init_attempts env [1, 2, 3] ESP_FAIL st0)))"
    by (simp_all del: init_attempts.simps)
  show "fst (sd_card_init env st) = attempt_error (env 3)"
    by (simp only: e k)
  show "\<not> sd_card_initialized (fst (snd (sd_card_init env st)))"
    by (simp only: e k) simp
qed

text \<open>
  Claim C2 at the failing input: on each of the three attempts the bus is configured and
  the filesystem mounts, and no mutex can be created. Every attempt is torn down and
  counts as failed, the loop runs out, and the function returns \<open>ESP_OK\<close>, the value the
  last mount left in \<^verbatim>\<open>ret\<close>, with the medium unmounted and no mutex.
\<close>

theorem sd_card_init_returns_ok_without_mutex:
  "sd_card_init (\<lambda>attempt. attempt_no_mutex) sd_initial
     = (ESP_OK, sd_initial \<lparr> s_host_max_freq_khz := 4000 \<rparr>,
        [Delay 300, Bus_initialize, Mount False 8000, Unmount, Bus_free,
         Delay 600, Bus_initialize, Mount True 4000, Unmount, Bus_free,
         Delay 900, Bus_initialize, Mount True 4000, Unmount, Bus_free])"
  by code_simp

text \<open>
  What the caller sees of it: success, and a medium that is not mounted.
\<close>

theorem sd_card_init_returns_ok_without_mutex_witness:
  "fst (sd_card_init (\<lambda>attempt. attempt_no_mutex) sd_initial) = ESP_OK
   \<and> \<not> sd_card_initialized (fst (snd (sd_card_init (\<lambda>attempt. attempt_no_mutex) sd_initial)))
   \<and> sd_card_mutex (fst (snd (sd_card_init (\<lambda>attempt. attempt_no_mutex) sd_initial))) = None"
  using sd_card_init_returns_ok_without_mutex by (simp add: sd_initial_def)

section \<open>The mounted flag and the card handle\<close>

lemma is_initialized_events:
  "quiet (snd (snd (sd_card_is_initialized b st)))"
  by (simp add: sd_card_is_initialized_def is_lock_event_def)

lemma is_initialized_mutex:
  "sd_card_mutex (fst (snd (sd_card_is_initialized b st))) = sd_card_mutex st"
  by (simp add: sd_card_is_initialized_def)

lemma ensure_dir_events: "quiet (snd (ensure_dir_exists path env))"
  by (simp add: ensure_dir_exists_def Let_def is_lock_event_def split: option.splits)

lemma write_trial_files_events: "quiet (write_trial_files env)"
  by (simp add: write_trial_files_def is_lock_event_def)

lemma init_attempt_inv:
  "mounted_inv st \<Longrightarrow> mounted_inv (fst (snd (init_attempt a n st)))"
  by (simp add: init_attempt_def Let_def split_def full_deinit_state mounted_inv_def)

lemma init_attempts_inv:
  "mounted_inv st \<Longrightarrow> mounted_inv (fst (snd (init_attempts env ns ret st)))"
proof (induction ns arbitrary: ret st)
  case Nil
  then show ?case by simp
next
  case (Cons n ns)
  obtain fin r st1 ev1 where a: "init_attempt (env n) n st = ((fin, r), st1, ev1)"
    by (metis prod.exhaust)
  have "mounted_inv st1" using init_attempt_inv [OF Cons.prems, of "env n" n] by (simp add: a)
  then show ?case
    using Cons.IH [of st1 r] by (cases fin) (simp_all add: a split_def)
qed

lemma sd_card_init_inv:
  assumes "mounted_inv st"
  shows "mounted_inv (fst (snd (sd_card_init env st)))"
proof (cases "sd_card_initialized st")
  case True
  have "mounted_inv (fst (snd (sd_card_full_deinit st)))"
    by (simp add: full_deinit_state mounted_inv_def)
  from init_attempts_inv [OF this] True show ?thesis
    by (simp add: sd_card_init_def split_def)
next
  case False
  from init_attempts_inv [OF assms] False show ?thesis
    by (simp add: sd_card_init_def split_def)
qed

lemma is_initialized_inv:
  "mounted_inv st \<Longrightarrow> mounted_inv (fst (snd (sd_card_is_initialized b st)))"
  by (simp add: sd_card_is_initialized_def mounted_inv_def)

lemma write_retry_check_inv:
  "mounted_inv st \<Longrightarrow> mounted_inv (fst (snd (write_retry_check env retry st)))"
  using sd_card_init_inv [OF is_initialized_inv, of st "w_reinit env retry" "w_alive env retry"]
    is_initialized_inv [of st "w_alive env retry"]
  by (auto simp: write_retry_check_def split_def Let_def split: bool.splits option.splits)

lemma write_open_retries_inv:
  "mounted_inv st \<Longrightarrow> mounted_inv (fst (snd (write_open_retries env path rs st)))"
proof (induction rs arbitrary: st)
  case Nil
  then show ?case by simp
next
  case (Cons r rs)
  have "mounted_inv (fst (snd (write_retry_check env r st)))"
    using write_retry_check_inv [OF Cons.prems] .
  then show ?case
    using Cons.IH by (auto simp: split_def split: option.splits)
qed

lemma write_file_inv:
  "mounted_inv st \<Longrightarrow> mounted_inv (fst (snd (sd_card_write_file path data env st)))"
  using write_open_retries_inv [of st env path "[0 ..< 3]"]
  by (auto simp: sd_card_write_file_def split_def Let_def
      split: option.splits loop_result.splits)

lemma append_file_state: "fst (snd (sd_card_append_file path data env st)) = st"
  by (simp add: sd_card_append_file_def split_def split: option.splits)

lemma get_info_inv:
  "mounted_inv st \<Longrightarrow> mounted_inv (fst (snd (snd (snd (sd_card_get_info tb fb b env st)))))"
  using is_initialized_inv [of st b]
  by (auto simp: sd_card_get_info_def split_def Let_def split: bool.splits option.splits)

lemma stability_test_state: "fst (snd (sd_card_stability_test env st)) = st"
  by (simp add: sd_card_stability_test_def split_def)

lemma reachable_mounted_inv: "reachable st \<Longrightarrow> mounted_inv st"
proof (induction rule: reachable.induct)
  case by_start
  show ?case by (simp add: mounted_inv_def sd_initial_def)
next
  case (by_init st env r st' evs)
  then show ?case using sd_card_init_inv [of st env] by simp
next
  case (by_deinit st r st' evs)
  then show ?case by (auto simp: sd_card_deinit_def mounted_inv_def)
next
  case (by_full_deinit st r st' evs)
  then show ?case using full_deinit_state [of st] by (auto simp: mounted_inv_def)
next
  case (by_probe st b alive st' evs)
  then show ?case using is_initialized_inv [of st b] by simp
next
  case (by_info st tb fb b penv r tb' fb' st' evs)
  then show ?case using get_info_inv [of st tb fb b penv] by simp
next
  case (by_stability st senv r st' evs)
  then show ?case using stability_test_state [of senv st] by simp
next
  case (by_write st path data wenv r st' evs)
  then show ?case using write_file_inv [of st path data wenv] by simp
next
  case (by_append st path data aenv r st' evs)
  then show ?case using append_file_state [of path data aenv st] by simp
qed

text \<open>
  Claim C8, as the code has it: in every reachable state a set mounted flag comes with a
  card handle (and with a mutex). The converse is not kept.
\<close>

theorem mounted_flag_implies_handle:
  "reachable st \<Longrightarrow> sd_card_initialized st \<Longrightarrow> s_card st \<noteq> None \<and> sd_card_mutex st \<noteq> None"
  using reachable_mounted_inv [of st] by (simp add: mounted_inv_def)

lemma ex_init: "sd_card_init (\<lambda>attempt. attempt_ok) sd_initial
     = (ESP_OK, ex_mounted, [Delay 300, Bus_initialize, Mount False 8000, Mutex_create (Manager_mutex 0)])"
  by code_simp

lemma ex_probe: "sd_card_is_initialized False ex_mounted = (False, ex_demoted, [Opendir MOUNT_POINT])"
  by code_simp

lemma reachable_ex_demoted: "reachable ex_demoted"
  using reachable.by_probe [OF reachable.by_init [OF reachable.by_start ex_init] ex_probe] .

text \<open>
  The theorem at the state after a first successful initialization.
\<close>

theorem mounted_flag_implies_handle_witness:
  "reachable ex_mounted \<and> sd_card_initialized ex_mounted
   \<and> s_card ex_mounted \<noteq> None \<and> sd_card_mutex ex_mounted \<noteq> None"
proof -
  have h1: "reachable ex_mounted"
    using reachable.by_init [OF reachable.by_start ex_init] .
  have h2: "sd_card_initialized ex_mounted" by (simp add: ex_mounted_def)
  from mounted_flag_implies_handle [OF h1 h2] h1 h2 show ?thesis by blast
qed

text \<open>
  Claim C8 as stated fails: after a successful initialization, a liveness probe that cannot
  open the mount point clears the flag and keeps the handle.
\<close>

theorem handle_without_mounted_flag_counterexample:
  "reachable ex_demoted \<and> s_card ex_demoted \<noteq> None \<and> \<not> sd_card_initialized ex_demoted"
  using reachable_ex_demoted by (simp add: ex_demoted_def ex_mounted_def)

section \<open>The lock in write and append\<close>

lemma ld_init [simp]: "lock_discipline h (snd (snd (sd_card_init env st))) = Some h"
  by (rule lock_discipline_quiet) (rule sd_card_init_events)

lemma ld_probe [simp]: "lock_discipline h (snd (snd (sd_card_is_initialized b st))) = Some h"
  by (rule lock_discipline_quiet) (rule is_initialized_events)

lemma ld_dir [simp]: "lock_discipline h (snd (ensure_dir_exists path env)) = Some h"
  by (rule lock_discipline_quiet) (rule ensure_dir_events)

lemma ld_trial [simp]: "lock_discipline h (write_trial_files env) = Some h"
  by (rule lock_discipline_quiet) (rule write_trial_files_events)

lemma write_retry_check_lock:
  assumes "sd_card_mutex st = Some m"
    and "write_retry_check env retry st = (res, st', evs)"
  shows "(res = None \<longrightarrow> lock_kept m st' evs) \<and> (res \<noteq> None \<longrightarrow> lock_released m evs)"
proof (cases "retry > 0")
  case False
  with assms show ?thesis
    by (auto simp: write_retry_check_def lock_kept_def)
next
  case True
  let ?p = "sd_card_is_initialized (w_alive env retry) st"
  have m1: "sd_card_mutex (fst (snd ?p)) = Some m"
    using assms(1) by (simp add: is_initialized_mutex)
  show ?thesis
  proof (cases "fst ?p")
    case alive: True
    with assms True m1 show ?thesis
      by (auto simp: write_retry_check_def split_def lock_kept_def lock_discipline_append)
  next
    case dead: False
    with assms True m1 show ?thesis
      by (auto simp: write_retry_check_def split_def Let_def lock_kept_def lock_released_def
          lock_discipline_append split: option.splits if_splits)
  qed
qed

lemma write_open_retries_lock:
  assumes "sd_card_mutex st = Some m"
    and "write_open_retries env path rs st = (res, st', evs)"
  shows "(case res of Loop_done b \<Rightarrow> lock_kept m st' evs | Loop_return x \<Rightarrow> lock_released m evs)"
  using assms
proof (induction rs arbitrary: st m res st' evs)
  case Nil
  then show ?case by (auto simp: lock_kept_def)
next
  case (Cons r rs)
  obtain c st1 ev1 where c: "write_retry_check env r st = (c, st1, ev1)"
    by (metis prod.exhaust)
  note l = write_retry_check_lock [OF Cons.prems(1) c]
  show ?case
  proof (cases c)
    case (Some x)
    with Cons.prems(2) c l show ?thesis by auto
  next
    case None
    with l obtain m1 where m1: "sd_card_mutex st1 = Some m1"
      and d1: "lock_discipline (Some (Manager_mutex m)) ev1 = Some (Some (Manager_mutex m1))"
      by (auto simp: lock_kept_def)
    show ?thesis
    proof (cases "w_open env r")
      case True
      with Cons.prems(2) c None m1 d1 show ?thesis
        by (auto simp: lock_kept_def lock_discipline_append)
    next
      case False
      obtain res2 st2 ev2 where r2: "write_open_retries env path rs st1 = (res2, st2, ev2)"
        by (metis prod.exhaust)
      note ih = Cons.IH [OF m1 r2]
      from Cons.prems(2) c None False r2
      have e: "res = res2" "st' = st2" "evs = ev1 @ [Fopen path Mode_w] @ ev2" by auto
      show ?thesis
        using ih d1 unfolding e
        by (cases res2) (auto simp: lock_kept_def lock_released_def lock_discipline_append)
    qed
  qed
qed

text \<open>
  Claim C3: whatever the environment answers, the takes and gives of
  \<^verbatim>\<open>sd_card_write_file\<close> and of \<^verbatim>\<open>sd_card_append_file\<close> pair up. Every give releases
  the mutex taken last, no mutex is taken while one is held, and at the end of the call
  nothing is held. This covers the early returns, the failed opens, the timeouts and the
  reinitialization in the middle of a write, where the mutex is given before
  \<^verbatim>\<open>sd_card_init\<close> and the new one is taken after it.
\<close>

theorem write_append_release_lock:
  "lock_discipline None (snd (snd (sd_card_write_file path data wenv st))) = Some None
   \<and> lock_discipline None (snd (snd (sd_card_append_file path data aenv st))) = Some None"
proof
  show "lock_discipline None (snd (snd (sd_card_append_file path data aenv st))) = Some None"
    by (simp add: sd_card_append_file_def split_def lock_discipline_append split: option.splits)
next
  show "lock_discipline None (snd (snd (sd_card_write_file path data wenv st))) = Some None"
  proof (cases "sd_card_mutex st")
    case None
    then show ?thesis by (simp add: sd_card_write_file_def)
  next
    case (Some m)
    obtain res st1 evs where l: "write_open_retries wenv path [0 ..< 3] st = (res, st1, evs)"
      by (metis prod.exhaust)
    note k = write_open_retries_lock [OF Some l]
    show ?thesis
    proof (cases res)
      case (Loop_return x)
      with k Some l show ?thesis
        by (simp add: sd_card_write_file_def split_def Let_def lock_discipline_append
            lock_released_def)
    next
      case (Loop_done b)
      with k Some l show ?thesis
        by (auto simp: sd_card_write_file_def split_def Let_def lock_discipline_append
            lock_kept_def)
    qed
  qed
qed

text \<open>
  The theorem at a write that reinitializes the medium in its second round, and at an
  append.
\<close>

theorem write_append_release_lock_witness:
  "fst (sd_card_write_file ''/sdcard/logs/a.txt'' ''x'' ex_write_env ex_mounted) = Return ESP_OK
   \<and> Take (Manager_mutex 1)
        \<in> set (snd (snd (sd_card_write_file ''/sdcard/logs/a.txt'' ''x'' ex_write_env ex_mounted)))
   \<and> lock_discipline None
        (snd (snd (sd_card_write_file ''/sdcard/logs/a.txt'' ''x'' ex_write_env ex_mounted)))
       = Some None
   \<and> lock_discipline None
        (snd (snd (sd_card_append_file ''/sdcard/logs/a.txt'' ''x'' ex_append_env ex_mounted)))
       = Some None"
proof -
  have h: "fst (sd_card_write_file ''/sdcard/logs/a.txt'' ''x'' ex_write_env ex_mounted)
        = Return ESP_OK
      \<and> Take (Manager_mutex 1)
        \<in> set (snd (snd (sd_card_write_file ''/sdcard/logs/a.txt'' ''x'' ex_write_env ex_mounted)))"
    by code_simp
  from write_append_release_lock
    [where path = "''/sdcard/logs/a.txt''" and data = "''x''" and wenv = ex_write_env
      and st = ex_mounted and aenv = ex_append_env] h
  show ?thesis by blast
qed

section \<open>The precondition of append\<close>

text \<open>
  Claim C9 at the failing input: in the state left by a liveness probe that found the
  medium gone (flag cleared, mutex still there) \<^verbatim>\<open>sd_card_append_file\<close> takes the mutex,
  opens the file and returns \<open>ESP_OK\<close>, where \<^verbatim>\<open>sd_card_write_file\<close> returns
  \<open>ESP_ERR_INVALID_STATE\<close> at once. In the start state, where no mutex exists, the append
  hands NULL to \<^verbatim>\<open>xSemaphoreTake\<close> and does not return.
\<close>

theorem append_skips_precondition:
  "sd_card_append_file ''/sdcard/log.txt'' ''x'' ex_append_env ex_demoted
     = (Return ESP_OK, ex_demoted,
        [Take (Manager_mutex 0), Opendir ''/sdcard'', Fopen ''/sdcard/log.txt'' Mode_a,
         Give (Manager_mutex 0)])
   \<and> sd_card_write_file ''/sdcard/log.txt'' ''x'' ex_write_env ex_demoted
     = (Return ESP_ERR_INVALID_STATE, ex_demoted, [])
   \<and> sd_card_append_file ''/sdcard/log.txt'' ''x'' ex_append_env sd_initial
     = (Abort, sd_initial, [])"
  by code_simp

text \<open>
  What the caller sees of it: the append succeeds in a state in which the write refuses.
\<close>

theorem append_skips_precondition_witness:
  "fst (sd_card_append_file ''/sdcard/log.txt'' ''x'' ex_append_env ex_demoted) = Return ESP_OK
   \<and> fst (sd_card_write_file ''/sdcard/log.txt'' ''x'' ex_write_env ex_demoted)
       = Return ESP_ERR_INVALID_STATE
   \<and> fst (sd_card_append_file ''/sdcard/log.txt'' ''x'' ex_append_env sd_initial) = Abort"
  using append_skips_precondition by simp

section \<open>File operations and locks\<close>

lemma ug_init [simp]: "unguarded_ops h (snd (snd (sd_card_init env st))) = []"
  by (rule unguarded_ops_no_file_ops) (rule sd_card_init_events)+

lemma ha_init [simp]: "held_after h (snd (snd (sd_card_init env st))) = h"
  by (rule held_after_quiet) (rule sd_card_init_events)

lemma ug_probe [simp]: "unguarded_ops (Some l) (snd (snd (sd_card_is_initialized b st))) = []"
  by (rule unguarded_ops_held) (rule is_initialized_events)

lemma ha_probe [simp]: "held_after h (snd (snd (sd_card_is_initialized b st))) = h"
  by (rule held_after_quiet) (rule is_initialized_events)

lemma ug_dir [simp]: "unguarded_ops (Some l) (snd (ensure_dir_exists path env)) = []"
  by (rule unguarded_ops_held) (rule ensure_dir_events)

lemma ha_dir [simp]: "held_after h (snd (ensure_dir_exists path env)) = h"
  by (rule held_after_quiet) (rule ensure_dir_events)

lemma ug_trial [simp]: "unguarded_ops (Some l) (write_trial_files env) = []"
  by (rule unguarded_ops_held) (rule write_trial_files_events)

lemma ha_trial [simp]: "held_after h (write_trial_files env) = h"
  by (rule held_after_quiet) (rule write_trial_files_events)

lemma write_retry_check_guard:
  assumes "write_retry_check env retry st = (res, st', evs)"
  shows "unguarded_ops (Some l) evs = [] \<and> (res = None \<longrightarrow> held_after (Some l) evs \<noteq> None)"
  using assms
  by (auto simp: write_retry_check_def split_def Let_def unguarded_ops_append held_after_append
      is_file_op_def split: if_splits option.splits bool.splits)

lemma write_open_retries_guard:
  "unguarded_ops (Some l) (snd (snd (write_open_retries env path rs st))) = []"
proof (induction rs arbitrary: st l)
  case Nil
  show ?case by simp
next
  case (Cons r rs)
  obtain c st1 ev1 where c: "write_retry_check env r st = (c, st1, ev1)"
    by (metis prod.exhaust)
  note g = write_retry_check_guard [OF c, of l]
  show ?case
  proof (cases c)
    case (Some x)
    with c g show ?thesis by simp
  next
    case None
    with g obtain l1 where l1: "held_after (Some l) ev1 = Some l1" by auto
    from None c g l1 Cons.IH [of l1 st1] show ?thesis
      by (simp add: split_def unguarded_ops_append held_after_append)
  qed
qed

lemma write_file_guarded:
  "unguarded_ops None (snd (snd (sd_card_write_file path data env st))) = []"
  using write_open_retries_guard [of _ env path "[0 ..< 3]" st]
  by (simp add: sd_card_write_file_def split_def Let_def unguarded_ops_append held_after_append
      split: option.splits loop_result.splits)

lemma append_file_guarded:
  "unguarded_ops None (snd (snd (sd_card_append_file path data env st))) = []"
  by (simp add: sd_card_append_file_def split_def unguarded_ops_append held_after_append
      split: option.splits)

lemma write_retry_check_takes:
  "takes_only is_manager_mutex (snd (snd (write_retry_check env retry st)))"
  by (simp add: write_retry_check_def split_def Let_def takes_only_quiet sd_card_init_events
      is_initialized_events is_manager_mutex_def split: option.splits bool.splits)

lemma write_open_retries_takes:
  "takes_only is_manager_mutex (snd (snd (write_open_retries env path rs st)))"
proof (induction rs arbitrary: st)
  case Nil
  show ?case by simp
next
  case (Cons r rs)
  show ?case
    using write_retry_check_takes [of env r st] Cons.IH
    by (simp add: split_def split: option.splits)
qed

lemma write_file_takes:
  "takes_only is_manager_mutex (snd (snd (sd_card_write_file path data env st)))"
  using write_open_retries_takes [of env path "[0 ..< 3]" st]
  by (simp add: sd_card_write_file_def split_def Let_def takes_only_quiet ensure_dir_events
      write_trial_files_events is_manager_mutex_def split: option.splits loop_result.splits)

lemma append_file_takes:
  "takes_only is_manager_mutex (snd (snd (sd_card_append_file path data env st)))"
  by (simp add: sd_card_append_file_def split_def takes_only_quiet ensure_dir_events
      is_manager_mutex_def split: option.splits)

lemma settings_save_guarded:
  "unguarded_ops None (snd (snd (settings_save env r st))) = []
   \<and> takes_only (\<lambda>l. l = Settings_mutex) (snd (snd (settings_save env r st)))"
  by (simp add: settings_save_def s_example_write_file_def Let_def)

lemma settings_load_guarded:
  "unguarded_ops None (snd (snd (settings_load k env st))) = []
   \<and> takes_only (\<lambda>l. l = Settings_mutex) (snd (snd (settings_load k env st)))"
  using settings_save_guarded
  by (simp add: settings_load_def Let_def split_def unguarded_ops_append held_after_append
      split: option.splits bool.splits)

lemma probe_once_quiet: "quiet (snd (probe_once p i r))"
  by (simp add: probe_once_def Let_def is_lock_event_def)

lemma probe_retries_quiet: "quiet (snd (probe_retries env i rs passed))"
  by (induction rs arbitrary: passed) (simp_all add: split_def probe_once_quiet)

lemma probe_files_quiet: "quiet (snd (probe_files env fs passed))"
  by (induction fs arbitrary: passed) (simp_all add: split_def probe_retries_quiet)

lemma get_info_quiet: "quiet (snd (snd (snd (snd (sd_card_get_info tb fb b env st)))))"
  using is_initialized_events [of b st]
  by (simp add: sd_card_get_info_def split_def Let_def probe_files_quiet
      split: bool.splits option.splits)

lemma stab_iteration_quiet: "quiet (snd (stab_iteration p i))"
  by (simp add: stab_iteration_def Let_def is_lock_event_def)

lemma stab_loop_quiet: "quiet (snd (stab_loop env ns n))"
  by (induction ns arbitrary: n) (simp_all add: split_def stab_iteration_quiet)

lemma stability_test_quiet: "quiet (snd (snd (sd_card_stability_test env st)))"
  by (simp add: sd_card_stability_test_def split_def stab_loop_quiet)

text \<open>
  Claim C10, as the code has it. \<^verbatim>\<open>sd_card_write_file\<close> and \<^verbatim>\<open>sd_card_append_file\<close>
  perform no file operation while no lock is held, and the locks they take are mutexes of
  the manager. \<^verbatim>\<open>settings_save\<close> and \<^verbatim>\<open>settings_load\<close> perform no file operation
  while no lock is held either, and the lock they take is the mutex of the settings
  module, which is not a mutex of the manager. \<^verbatim>\<open>sd_card_get_info\<close> and
  \<^verbatim>\<open>sd_card_stability_test\<close> take and give no lock at all.
\<close>

theorem file_operations_and_locks:
  "unguarded_ops None (snd (snd (sd_card_write_file path data wenv st))) = []
   \<and> takes_only is_manager_mutex (snd (snd (sd_card_write_file path data wenv st)))
   \<and> unguarded_ops None (snd (snd (sd_card_append_file path data aenv st))) = []
   \<and> takes_only is_manager_mutex (snd (snd (sd_card_append_file path data aenv st)))
   \<and> unguarded_ops None (snd (snd (settings_save senv r sst))) = []
   \<and> takes_only (\<lambda>l. l = Settings_mutex) (snd (snd (settings_save senv r sst)))
   \<and> unguarded_ops None (snd (snd (settings_load k senv sst))) = []
   \<and> takes_only (\<lambda>l. l = Settings_mutex) (snd (snd (settings_load k senv sst)))
   \<and> \<not> is_manager_mutex Settings_mutex
   \<and> quiet (snd (snd (snd (snd (sd_card_get_info tb fb b penv st)))))
   \<and> quiet (snd (snd (sd_card_stability_test tenv st)))"
  using write_file_guarded write_file_takes append_file_guarded append_file_takes
    settings_save_guarded settings_load_guarded get_info_quiet stability_test_quiet
  by (simp add: is_manager_mutex_def)

text \<open>
  The theorem at a write on the mounted medium, which takes two mutexes of the manager,
  and at a load at start-up, which takes the mutex of the settings module.
\<close>

theorem file_operations_and_locks_witness:
  "Take (Manager_mutex 1)
     \<in> set (snd (snd (sd_card_write_file ''/sdcard/logs/a.txt'' ''x'' ex_write_env ex_mounted)))
   \<and> is_manager_mutex (Manager_mutex 1)
   \<and> Take Settings_mutex \<in> set (snd (snd (settings_load ex_consts env_all_ok ex_boot_state)))
   \<and> unguarded_ops None
        (snd (snd (sd_card_write_file ''/sdcard/logs/a.txt'' ''x'' ex_write_env ex_mounted))) = []
   \<and> takes_only is_manager_mutex
        (snd (snd (sd_card_write_file ''/sdcard/logs/a.txt'' ''x'' ex_write_env ex_mounted)))
   \<and> unguarded_ops None (snd (snd (settings_load ex_consts env_all_ok ex_boot_state))) = []
   \<and> takes_only (\<lambda>l. l = Settings_mutex)
        (snd (snd (settings_load ex_consts env_all_ok ex_boot_state)))"
proof -
  have h: "Take (Manager_mutex 1)
     \<in> set (snd (snd (sd_card_write_file ''/sdcard/logs/a.txt'' ''x'' ex_write_env ex_mounted)))
   \<and> is_manager_mutex (Manager_mutex 1)
   \<and> Take Settings_mutex \<in> set (snd (snd (settings_load ex_consts env_all_ok ex_boot_state)))"
    by code_simp
  from file_operations_and_locks
    [where path = "''/sdcard/logs/a.txt''" and data = "''x''" and wenv = ex_write_env
      and st = ex_mounted and senv = env_all_ok and sst = ex_boot_state and k = ex_consts] h
  show ?thesis by blast
qed

text \<open>
  Claim C10 as stated fails: on the mounted medium \<^verbatim>\<open>sd_card_get_info\<close> opens the mount
  point, writes, reads back and deletes a probe file, and none of these operations happens
  under a lock.
\<close>

theorem unlocked_file_operations_counterexample:
  "sd_card_get_info (Some 0) (Some 0) True (\<lambda>file_idx retry. probe_ok) ex_mounted
     = (ESP_OK, Some 3965190144, Some 3370411622, ex_mounted,
        [Opendir ''/sdcard'', Fopen ''/sdcard/test_write.tmp'' Mode_w,
         Fopen ''/sdcard/test_write.tmp'' Mode_r, Remove ''/sdcard/test_write.tmp''])
   \<and> unguarded_ops None
        [Opendir ''/sdcard'', Fopen ''/sdcard/test_write.tmp'' Mode_w,
         Fopen ''/sdcard/test_write.tmp'' Mode_r, Remove ''/sdcard/test_write.tmp'']
     = [Opendir ''/sdcard'', Fopen ''/sdcard/test_write.tmp'' Mode_w,
         Fopen ''/sdcard/test_write.tmp'' Mode_r, Remove ''/sdcard/test_write.tmp'']"
  by code_simp

section \<open>Free-space estimate\<close>

lemma probe_once_passes: "fst (probe_once p i r) = probe_passes p"
  by (auto simp: probe_once_def probe_passes_def Let_def)

lemma probe_retries_passes:
  "fst (probe_retries env i rs passed) = (passed \<or> list_ex (\<lambda>r. probe_passes (env i r)) rs)"
proof (induction rs arbitrary: passed)
  case Nil
  show ?case by simp
next
  case (Cons r rs)
  show ?case
    using Cons.IH [of "fst (probe_once (env i r) i r)"]
    by (auto simp: split_def probe_once_passes)
qed

lemma probe_files_passes:
  "fst (probe_files env fs passed)
     = (passed \<or> list_ex (\<lambda>i. list_ex (\<lambda>r. probe_passes (env i r)) [0 ..< 3]) fs)"
proof (induction fs arbitrary: passed)
  case Nil
  show ?case by simp
next
  case (Cons i fs)
  show ?case
    using Cons.IH [of "fst (probe_retries env i [0 ..< 3] passed)"]
    by (auto simp: split_def probe_retries_passes)
qed

lemma probe_files_any:
  "fst (probe_files env [0 ..< length test_files] False) = any_probe_passes env"
  by (simp only: probe_files_passes any_probe_passes_def simp_thms)

lemma get_info_live:
  assumes p: "sd_card_is_initialized b st = (True, st, ev)" and c: "s_card st = Some c"
  shows "sd_card_get_info tb fb b env st
    = (ESP_OK,
       (if tb = None then None else Some (card_bytes c)),
       (if fb = None then None
        else Some (if any_probe_passes env then (card_bytes c * 85) div 100 else 0)),
       st,
       ev @ (if fb = None then [] else snd (probe_files env [0 ..< length test_files] False)))"
proof (cases tb)
  case None
  show ?thesis
    by (cases fb)
      (simp_all add: sd_card_get_info_def p c None Let_def split_def flip: probe_files_any)
next
  case (Some t)
  show ?thesis
    by (cases fb)
      (simp_all add: sd_card_get_info_def p c Some Let_def split_def flip: probe_files_any)
qed

lemma unat_85_percent:
  assumes "unat (x :: uint64_t) * 85 < 2 ^ 64"
  shows "unat ((x * 85) div 100) = unat x * 85 div 100"
proof -
  have "unat (x * 85) = unat x * 85"
    using assms by (simp add: unat_word_ariths)
  then show ?thesis by (simp add: unat_div)
qed

text \<open>
  Claim C4: when the liveness check passes, \<^verbatim>\<open>sd_card_get_info\<close> returns \<open>ESP_OK\<close>.
  The total, when asked for, is the capacity of the card. The free space, when asked for,
  is \<^verbatim>\<open>total * 85 / 100\<close> in 64-bit arithmetic if a trial passes (which is 85 percent of
  the total, rounded down, as long as the product does not overflow), and 0 if every
  trial fails.
\<close>

theorem get_info_free_space_estimate:
  assumes live: "fst (sd_card_is_initialized b st)"
  shows "fst (sd_card_get_info tb fb b env st) = ESP_OK
    \<and> (\<exists>c. s_card st = Some c
         \<and> (tb \<noteq> None \<longrightarrow> fst (snd (sd_card_get_info tb fb b env st)) = Some (card_bytes c))
         \<and> (fb \<noteq> None \<and> any_probe_passes env \<longrightarrow>
               fst (snd (snd (sd_card_get_info tb fb b env st)))
                 = Some ((card_bytes c * 85) div 100))
         \<and> (unat (card_bytes c) * 85 < 2 ^ 64 \<longrightarrow>
               unat ((card_bytes c * 85) div 100) = unat (card_bytes c) * 85 div 100)
         \<and> (fb \<noteq> None \<and> \<not> any_probe_passes env \<longrightarrow>
               fst (snd (snd (sd_card_get_info tb fb b env st))) = Some 0))"
proof -
  from live obtain c where c: "s_card st = Some c"
    and p: "sd_card_is_initialized b st = (True, st, [Opendir MOUNT_POINT])"
    by (auto simp: sd_card_is_initialized_def split: if_splits)
  note g = get_info_live [OF p c, of tb fb env]
  show ?thesis
  proof (intro conjI exI [of _ c] impI)
    show "s_card st = Some c" by (rule c)
    show "unat ((card_bytes c * 85) div 100) = unat (card_bytes c) * 85 div 100"
      if "unat (card_bytes c) * 85 < 2 ^ 64"
      using that by (rule unat_85_percent)
  qed (simp_all add: g)
qed

text \<open>
  The theorem on a 4 GB card, once with a passing trial and once with none.
\<close>

lemma ex_get_info:
  "sd_card_get_info (Some 0) (Some 0) True probe_env_late ex_mounted
     = (ESP_OK, Some 3965190144, Some 3370411622, ex_mounted,
        [Opendir ''/sdcard'',
         Fopen ''/sdcard/test_write.tmp'' Mode_w, Delay 100,
         Fopen ''/sdcard/test_write.tmp'' Mode_w, Delay 150,
         Fopen ''/sdcard/test_write.tmp'' Mode_w,
         Fopen ''/sdcard/.test_free'' Mode_w, Delay 100,
         Fopen ''/sdcard/.test_free'' Mode_w, Delay 150,
         Fopen ''/sdcard/.test_free'' Mode_w, Fopen ''/sdcard/.test_free'' Mode_r,
         Remove ''/sdcard/.test_free''])"
  by code_simp

theorem get_info_free_space_estimate_witness:
  "fst (sd_card_is_initialized True ex_mounted)
   \<and> any_probe_passes probe_env_late
   \<and> \<not> any_probe_passes (\<lambda>file_idx retry. probe_no_open)
   \<and> unat (card_bytes ex_card) * 85 < 2 ^ 64
   \<and> fst (sd_card_get_info (Some 0) (Some 0) True probe_env_late ex_mounted) = ESP_OK
   \<and> fst (snd (snd (sd_card_get_info (Some 0) (Some 0) True probe_env_late ex_mounted)))
       = Some ((card_bytes ex_card * 85) div 100)
   \<and> unat ((card_bytes ex_card * 85) div 100) = unat (card_bytes ex_card) * 85 div 100
   \<and> fst (snd (snd (sd_card_get_info (Some 0) (Some 0) True
                       (\<lambda>file_idx retry. probe_no_open) ex_mounted)))
       = Some 0"
proof -
  have h1: "fst (sd_card_is_initialized True ex_mounted)" by code_simp
  have h2: "any_probe_passes probe_env_late" by code_simp
  have h3: "\<not> any_probe_passes (\<lambda>file_idx retry. probe_no_open)" by code_simp
  have h4: "unat (card_bytes ex_card) * 85 < 2 ^ 64"
    by (simp add: card_bytes_def ex_card_def)
  have c: "s_card ex_mounted = Some ex_card" by (simp add: ex_mounted_def)
  have n: "Some (0::uint64_t) \<noteq> None" by simp
  from get_info_free_space_estimate [OF h1, of "Some 0" "Some 0" probe_env_late]
  have a: "fst (sd_card_get_info (Some 0) (Some 0) True probe_env_late ex_mounted) = ESP_OK"
    and b: "fst (snd (snd (sd_card_get_info (Some 0) (Some 0) True probe_env_late ex_mounted)))
       = Some ((card_bytes ex_card * 85) div 100)"
    and d: "unat ((card_bytes ex_card * 85) div 100) = unat (card_bytes ex_card) * 85 div 100"
    using c h2 h4 n by auto
  from get_info_free_space_estimate
    [OF h1, of "Some 0" "Some 0" "\<lambda>file_idx retry. probe_no_open"]
  have e: "fst (snd (snd (sd_card_get_info (Some 0) (Some 0) True
                       (\<lambda>file_idx retry. probe_no_open) ex_mounted))) = Some 0"
    using c h3 n by auto
  from h1 h2 h3 h4 a b d e show ?thesis by (intro conjI)
qed

section \<open>Stability test\<close>

lemma stab_loop_count:
  "fst (stab_loop env ns n) = n + length (filter (\<lambda>i. fst (stab_iteration (env i) i)) ns)"
  by (induction ns arbitrary: n) (simp_all add: split_def)

lemma stab_loop_opens:
  "filter is_open_for_write (snd (stab_loop env ns n))
     = map (\<lambda>i. Fopen (stab_filename i) Mode_w) ns"
  by (induction ns arbitrary: n)
    (simp_all add: split_def stab_iteration_def Let_def is_open_for_write_def)

lemma stab_loop_removes:
  "filter is_remove (snd (stab_loop env ns n))
     = map (\<lambda>i. Remove (stab_filename i)) (filter (\<lambda>i. open_w (env i)) ns)"
  by (induction ns arbitrary: n)
    (simp_all add: split_def stab_iteration_def Let_def is_remove_def)

lemma stab_successes_le: "stab_successes env \<le> 10"
proof -
  have "stab_successes env \<le> length [0 ..< test_iterations]"
    unfolding stab_successes_def by (rule length_filter_le)
  then show ?thesis by (simp add: test_iterations_def)
qed

text \<open>
  The comparisons of the \<^verbatim>\<open>float\<close> success rate with 80 and 50 are comparisons of the
  number of successes with 8 and 5.
\<close>

lemma success_rate_table:
  "list_all (\<lambda>n. (80 \<le> success_rate n 10) = (8 \<le> n) \<and> (50 \<le> success_rate n 10) = (5 \<le> n))
     [0 ..< 11]"
  by code_simp

lemma success_rate_thresholds:
  assumes "n \<le> 10"
  shows "(80 \<le> success_rate n 10) = (8 \<le> n) \<and> (50 \<le> success_rate n 10) = (5 \<le> n)"
proof -
  from assms have "n \<in> set [0 ..< 11]" by simp
  with success_rate_table show ?thesis
    unfolding list_all_iff by blast
qed

text \<open>
  Claim C6, as the code has it. Not mounted, the test returns \<open>ESP_ERR_INVALID_STATE\<close>
  and does nothing. Mounted, it opens ten files for writing, one per iteration; it deletes
  the file of exactly those iterations whose open succeeded, whatever the write and the
  read-back gave; and with \<open>n\<close> successful iterations the result is Stable for \<open>n\<close> of
  8 or more, UsableDegraded for \<open>n\<close> from 5 to 7 and Unusable below.
\<close>

theorem stability_test_classification:
  "(\<not> sd_card_initialized st \<or> s_card st = None \<longrightarrow>
      sd_card_stability_test env st = (ESP_ERR_INVALID_STATE, st, []))
   \<and> (sd_card_initialized st \<and> s_card st \<noteq> None \<longrightarrow>
        stability_of (fst (sd_card_stability_test env st))
          = Some (if 8 \<le> stab_successes env then Stable
                  else if 5 \<le> stab_successes env then UsableDegraded
                  else Unusable)
        \<and> filter is_open_for_write (snd (snd (sd_card_stability_test env st)))
            = map (\<lambda>i. Fopen (stab_filename i) Mode_w) [0 ..< 10]
        \<and> filter is_remove (snd (snd (sd_card_stability_test env st)))
            = map (\<lambda>i. Remove (stab_filename i)) (filter (\<lambda>i. open_w (env i)) [0 ..< 10]))"
proof -
  have n: "fst (stab_loop env [0 ..< test_iterations] 0) = stab_successes env"
    by (simp add: stab_loop_count stab_successes_def)
  note t = success_rate_thresholds [OF stab_successes_le, of env]
  have ti: "test_iterations = 10" by (simp add: test_iterations_def)
  have a: "sd_card_stability_test env st = (ESP_ERR_INVALID_STATE, st, [])"
    if "\<not> sd_card_initialized st \<or> s_card st = None"
    using that by (auto simp: sd_card_stability_test_def)
  have b: "stability_of (fst (sd_card_stability_test env st))
          = Some (if 8 \<le> stab_successes env then Stable
                  else if 5 \<le> stab_successes env then UsableDegraded
                  else Unusable)"
    and c: "filter is_open_for_write (snd (snd (sd_card_stability_test env st)))
            = map (\<lambda>i. Fopen (stab_filename i) Mode_w) [0 ..< 10]"
    and d: "filter is_remove (snd (snd (sd_card_stability_test env st)))
            = map (\<lambda>i. Remove (stab_filename i)) (filter (\<lambda>i. open_w (env i)) [0 ..< 10])"
    if "sd_card_initialized st \<and> s_card st \<noteq> None"
  proof -
    show "stability_of (fst (sd_card_stability_test env st))
          = Some (if 8 \<le> stab_successes env then Stable
                  else if 5 \<le> stab_successes env then UsableDegraded
                  else Unusable)"
      using that t n
      by (auto simp: sd_card_stability_test_def split_def stability_of_def ti)
    show "filter is_open_for_write (snd (snd (sd_card_stability_test env st)))
            = map (\<lambda>i. Fopen (stab_filename i) Mode_w) [0 ..< 10]"
      using that by (auto simp: sd_card_stability_test_def split_def stab_loop_opens ti)
    show "filter is_remove (snd (snd (sd_card_stability_test env st)))
            = map (\<lambda>i. Remove (stab_filename i)) (filter (\<lambda>i. open_w (env i)) [0 ..< 10])"
      using that by (auto simp: sd_card_stability_test_def split_def stab_loop_removes ti)
  qed
  from a b c d show ?thesis by blast
qed

text \<open>
  The theorem with 9, 7 and 2 successful iterations, and in the start state.
\<close>

lemma ex_stab_upto:
  "stab_successes (stab_env_upto 9) = 9" "stab_successes (stab_env_upto 7) = 7"
  "stab_successes (stab_env_upto 2) = 2"
  by code_simp+

theorem stability_test_classification_witness:
  "sd_card_initialized ex_mounted \<and> s_card ex_mounted \<noteq> None
   \<and> stability_of (fst (sd_card_stability_test (stab_env_upto 9) ex_mounted)) = Some Stable
   \<and> stability_of (fst (sd_card_stability_test (stab_env_upto 7) ex_mounted)) = Some UsableDegraded
   \<and> stability_of (fst (sd_card_stability_test (stab_env_upto 2) ex_mounted)) = Some Unusable
   \<and> \<not> sd_card_initialized sd_initial
   \<and> sd_card_stability_test (stab_env_upto 9) sd_initial = (ESP_ERR_INVALID_STATE, sd_initial, [])"
proof -
  have h1: "sd_card_initialized ex_mounted \<and> s_card ex_mounted \<noteq> None"
    by (simp add: ex_mounted_def)
  have h2: "\<not> sd_card_initialized sd_initial"
    by (simp add: sd_initial_def)
  from stability_test_classification [of ex_mounted "stab_env_upto 9"]
    stability_test_classification [of ex_mounted "stab_env_upto 7"]
    stability_test_classification [of ex_mounted "stab_env_upto 2"]
    stability_test_classification [of sd_initial "stab_env_upto 9"]
    h1 h2 ex_stab_upto
  show ?thesis by simp
qed

text \<open>
  Claim C6 as stated fails: when the file of the first iteration cannot be opened, the
  test still returns \<open>ESP_OK\<close> (nine successes), it has tried to open that file, and it
  has not deleted it.
\<close>

theorem stability_test_no_delete_counterexample:
  "fst (sd_card_stability_test stab_env_first_fails ex_mounted) = ESP_OK
   \<and> \<not> open_w (stab_env_first_fails 0)
   \<and> Fopen ''/sdcard/stab_test_0.tmp'' Mode_w
        \<in> set (snd (snd (sd_card_stability_test stab_env_first_fails ex_mounted)))
   \<and> Remove ''/sdcard/stab_test_0.tmp''
        \<notin> set (snd (snd (sd_card_stability_test stab_env_first_fails ex_mounted)))"
  by code_simp

end
